theory Spec2Isabelle
  imports Main
begin

section \<open>Data model of package mod (internal/lsp/mod/diagnostics.go)\<close>

text \<open>
  The types below are declared in packages that diagnostics.go imports
  (protocol, source, span, modfile, module). Each record keeps the fields that
  diagnostics.go reads or writes. Field names carry a short prefix where two Go
  types share a field name.
\<close>

type_synonym URI = string

text \<open>protocol.Position and protocol.Range: zero-based line/column pairs.\<close>

record protocol_Position =
  Line :: nat
  Character :: nat

record protocol_Range =
  Start :: protocol_Position
  End :: protocol_Position

datatype DiagnosticSeverity =
  SeverityError | SeverityWarning | SeverityInformation | SeverityHint

text \<open>source.Diagnostic, the value built by Diagnostics and ExtractGoCommandError.
  A field that a Go composite literal leaves out has its zero value.\<close>

record source_Diagnostic =
  sd_Message :: string
  sd_Range :: protocol_Range
  sd_Severity :: DiagnosticSeverity
  sd_Source :: string

text \<open>protocol.Diagnostic, the value a client hands back to SuggestedFixes.\<close>

record protocol_Diagnostic =
  pd_Range :: protocol_Range
  pd_Severity :: DiagnosticSeverity
  pd_Source :: string
  pd_Message :: string

record protocol_TextEdit =
  te_Range :: protocol_Range
  te_NewText :: string

text \<open>source.SuggestedFix. In Go, Edits is a map from URI to edits, and the loop
  over it visits the keys in an order the runtime chooses. The model holds the
  entries as a list in the order of that visit.\<close>

record source_SuggestedFix =
  fix_Title :: string
  fix_Edits :: "(URI \<times> protocol_TextEdit list) list"

text \<open>source.Error, one error of the tidy analysis.\<close>

record source_Error =
  e_URI :: URI
  e_Range :: protocol_Range
  e_Message :: string
  e_Category :: string
  e_SuggestedFixes :: "source_SuggestedFix list"

record protocol_TextDocumentIdentifier =
  tdi_URI :: URI

record protocol_VersionedTextDocumentIdentifier =
  vtdi_Version :: int
  vtdi_TextDocumentIdentifier :: protocol_TextDocumentIdentifier

record protocol_TextDocumentEdit =
  tde_TextDocument :: protocol_VersionedTextDocumentIdentifier
  tde_Edits :: "protocol_TextEdit list"

record protocol_WorkspaceEdit =
  DocumentChanges :: "protocol_TextDocumentEdit list"

datatype CodeActionKind = QuickFix

record protocol_CodeAction =
  ca_Title :: string
  ca_Kind :: CodeActionKind
  ca_Diagnostics :: "protocol_Diagnostic list"
  ca_Edit :: protocol_WorkspaceEdit

text \<open>source.FileIdentity and source.FileHandle.\<close>

record source_FileIdentity =
  fi_URI :: URI
  fi_Version :: int
  fi_Identifier :: string

record source_FileHandle =
  fh_URI :: URI
  fh_Version :: int
  fh_Identity :: source_FileIdentity

text \<open>
  Go errors. \<open>ErrTmpModfileUnsupported\<close> is the sentinel of package source that
  the code compares with \<open>==\<close>; \<open>CollaboratorError\<close> is any other error that a call
  on the snapshot returns; \<open>Errorf\<close> is the fresh error made by fmt.Errorf in
  ExtractGoCommandError, holding the formatted text.
\<close>

datatype error =
  ErrTmpModfileUnsupported
  | CollaboratorError string
  | Errorf string

text \<open>module.Version and the parts of modfile.File that ExtractGoCommandError reads.\<close>

record module_Version =
  Path :: string
  Version :: string

record modfile_Position =
  pos_Line :: int
  pos_LineRune :: int
  Byte :: int

record modfile_Line =
  line_Start :: modfile_Position
  line_End :: modfile_Position

record modfile_Require =
  req_Mod :: module_Version
  req_Syntax :: modfile_Line

record modfile_Exclude =
  ex_Mod :: module_Version
  ex_Syntax :: modfile_Line

record modfile_Replace =
  rep_Old :: module_Version
  rep_New :: module_Version
  rep_Syntax :: modfile_Line

record modfile_File =
  Require :: "modfile_Require list"
  Exclude :: "modfile_Exclude list"
  Replace :: "modfile_Replace list"

text \<open>span.Point and span.Span, as built by span.NewPoint and span.New.\<close>

record span_Point =
  pt_Line :: int
  pt_Column :: int
  pt_Offset :: int

record span_Span =
  sp_URI :: URI
  sp_Start :: span_Point
  sp_End :: span_Point

text \<open>protocol.ColumnMapper: \<open>ToPosition\<close> is m.Converter.ToPosition and
  \<open>MapperRange\<close> is m.Range. Both belong to the position-mapping collaborator and
  both can fail.\<close>

record protocol_ColumnMapper =
  ToPosition :: "int \<Rightarrow> error + (int \<times> int)"
  MapperRange :: "span_Span \<Rightarrow> error + protocol_Range"

text \<open>The handles and the snapshot: one field for each method that diagnostics.go
  calls, holding what the method returns. A Go result pair (value, err) is a sum,
  \<open>Inl\<close> the error.\<close>

record source_ModTidyHandle =
  Tidy :: "error + source_Error list"

record source_ParseModHandle =
  Parse :: "error + (modfile_File \<times> protocol_ColumnMapper)"

record source_Snapshot =
  ModFile :: URI
  GetFile :: "URI \<Rightarrow> error + source_FileHandle"
  ModTidyHandle :: "error + source_ModTidyHandle"
  ParseModHandle :: "source_FileHandle \<Rightarrow> error + source_ParseModHandle"

section \<open>Diagnostics\<close>

type_synonym reports = "source_FileIdentity \<rightharpoonup> source_Diagnostic list"

text \<open>The diagnostic built at the head of the loop body of Diagnostics.\<close>

definition errorDiagnostic :: "source_Error \<Rightarrow> source_Diagnostic" where
  "errorDiagnostic e =
     (let diag = \<lparr>sd_Message = e_Message e, sd_Range = e_Range e,
                  sd_Severity = SeverityError, sd_Source = e_Category e\<rparr>
      in if e_Category e = ''syntax''
         then diag\<lparr>sd_Severity := SeverityError\<rparr>
         else diag\<lparr>sd_Severity := SeverityWarning\<rparr>)"

text \<open>Reading a Go map at a missing key gives the nil slice.\<close>

definition lookupList :: "('k \<rightharpoonup> 'v list) \<Rightarrow> 'k \<Rightarrow> 'v list" where
  "lookupList m k = (case m k of None \<Rightarrow> [] | Some vs \<Rightarrow> vs)"

text \<open>The loop \<open>for _, e := range diagnostics\<close> of Diagnostics.\<close>

fun Diagnostics_loop ::
  "source_Snapshot \<Rightarrow> source_Error list \<Rightarrow> reports \<Rightarrow> error + reports" where
  "Diagnostics_loop snapshot [] reports = Inr reports"
| "Diagnostics_loop snapshot (e # es) reports =
     (let diag = errorDiagnostic e in
      case GetFile snapshot (e_URI e) of
        Inl err \<Rightarrow> Inl err
      | Inr fh \<Rightarrow>
          Diagnostics_loop snapshot es
            (reports(fh_Identity fh \<mapsto> lookupList reports (fh_Identity fh) @ [diag])))"

text \<open>Diagnostics. The nil map of \<open>return nil, nil\<close> is the empty map.\<close>

definition Diagnostics :: "source_Snapshot \<Rightarrow> error + reports" where
  "Diagnostics snapshot =
     (let uri = ModFile snapshot in
      if uri = [] then Inr Map.empty
      else
        case GetFile snapshot uri of
          Inl err \<Rightarrow> Inl err
        | Inr fh \<Rightarrow>
            (case ModTidyHandle snapshot of
               Inl err \<Rightarrow>
                 if err = ErrTmpModfileUnsupported then Inr Map.empty else Inl err
             | Inr mth \<Rightarrow>
                 (case Tidy mth of
                    Inl err \<Rightarrow> Inl err
                  | Inr diagnostics \<Rightarrow>
                      Diagnostics_loop snapshot diagnostics
                        (Map.empty(fh_Identity fh \<mapsto> [])))))"

section \<open>SuggestedFixes\<close>

text \<open>
  Modelled from the spec: protocol.ComparePosition and protocol.CompareRange are
  not among the source files. The spec says that ranges are zero-based line/column
  pairs and that two ranges are matched when they "compare equal under range
  comparison". The model orders positions by line, then character, and ranges by
  start, then end; the result is 0 for equal ranges only.
\<close>

definition ComparePosition :: "protocol_Position \<Rightarrow> protocol_Position \<Rightarrow> int" where
  "ComparePosition a b =
     (if Line a < Line b then - 1
      else if Line a > Line b then 1
      else if Character a < Character b then - 1
      else if Character a > Character b then 1
      else 0)"

definition CompareRange :: "protocol_Range \<Rightarrow> protocol_Range \<Rightarrow> int" where
  "CompareRange a b =
     (let r = ComparePosition (Start a) (Start b) in
      if r \<noteq> 0 then r else ComparePosition (End a) (End b))"

definition sameDiagnostic :: "protocol_Diagnostic \<Rightarrow> source_Error \<Rightarrow> bool" where
  "sameDiagnostic d e \<longleftrightarrow>
     pd_Message d = e_Message e \<and> CompareRange (pd_Range d) (e_Range e) = 0 \<and>
     pd_Source d = e_Category e"

text \<open>
  Modelled from the spec: protocol.URIFromSpanURI is not among the source files.
  The spec names the file of an edit group by its URI; the model takes the
  conversion from a span URI to a document URI as the identity on the text.
\<close>

definition URIFromSpanURI :: "URI \<Rightarrow> URI" where
  "URIFromSpanURI uri = uri"

text \<open>The loop that fills errorsMap, the index from message text to errors.\<close>

fun errorsMap_loop ::
  "source_Error list \<Rightarrow> (string \<rightharpoonup> source_Error list) \<Rightarrow> (string \<rightharpoonup> source_Error list)" where
  "errorsMap_loop [] errorsMap = errorsMap"
| "errorsMap_loop (e # es) errorsMap =
     (let errorsMap1 =
        (if errorsMap (e_Message e) = None then errorsMap(e_Message e \<mapsto> [])
         else errorsMap)
      in errorsMap_loop es
           (errorsMap1(e_Message e \<mapsto> lookupList errorsMap1 (e_Message e) @ [e])))"

text \<open>The loop \<open>for uri, edits := range fix.Edits\<close>: one document change per
  touched file, or the error of the first file that does not resolve.\<close>

fun Edits_loop ::
  "source_Snapshot \<Rightarrow> (URI \<times> protocol_TextEdit list) list \<Rightarrow> protocol_CodeAction
     \<Rightarrow> error + protocol_CodeAction" where
  "Edits_loop snapshot [] action = Inr action"
| "Edits_loop snapshot ((uri, edits) # rest) action =
     (case GetFile snapshot uri of
        Inl err \<Rightarrow> Inl err
      | Inr fh \<Rightarrow>
          Edits_loop snapshot rest
            (action\<lparr>ca_Edit := (ca_Edit action)\<lparr>DocumentChanges :=
               DocumentChanges (ca_Edit action) @
                 [\<lparr>tde_TextDocument =
                      \<lparr>vtdi_Version = fh_Version fh,
                        vtdi_TextDocumentIdentifier =
                          \<lparr>tdi_URI = URIFromSpanURI (fh_URI fh)\<rparr>\<rparr>,
                    tde_Edits = edits\<rparr>]\<rparr>\<rparr>))"

text \<open>The loop \<open>for _, fix := range e.SuggestedFixes\<close>.\<close>

fun fixes_loop ::
  "source_Snapshot \<Rightarrow> protocol_Diagnostic \<Rightarrow> source_SuggestedFix list
     \<Rightarrow> protocol_CodeAction list \<Rightarrow> error + protocol_CodeAction list" where
  "fixes_loop snapshot diag [] actions = Inr actions"
| "fixes_loop snapshot diag (fix # fixes) actions =
     (let action = \<lparr>ca_Title = fix_Title fix, ca_Kind = QuickFix,
                    ca_Diagnostics = [diag], ca_Edit = \<lparr>DocumentChanges = []\<rparr>\<rparr>
      in case Edits_loop snapshot (fix_Edits fix) action of
           Inl err \<Rightarrow> Inl err
         | Inr action' \<Rightarrow> fixes_loop snapshot diag fixes (actions @ [action']))"

text \<open>The loop \<open>for _, e := range errorsMap[diag.Message]\<close>.\<close>

fun errors_loop ::
  "source_Snapshot \<Rightarrow> protocol_Diagnostic \<Rightarrow> source_Error list
     \<Rightarrow> protocol_CodeAction list \<Rightarrow> error + protocol_CodeAction list" where
  "errors_loop snapshot diag [] actions = Inr actions"
| "errors_loop snapshot diag (e # es) actions =
     (if \<not> sameDiagnostic diag e then errors_loop snapshot diag es actions
      else
        case fixes_loop snapshot diag (e_SuggestedFixes e) actions of
          Inl err \<Rightarrow> Inl err
        | Inr actions' \<Rightarrow> errors_loop snapshot diag es actions')"

text \<open>The loop \<open>for _, diag := range diags\<close>.\<close>

fun diags_loop ::
  "source_Snapshot \<Rightarrow> (string \<rightharpoonup> source_Error list) \<Rightarrow> protocol_Diagnostic list
     \<Rightarrow> protocol_CodeAction list \<Rightarrow> error + protocol_CodeAction list" where
  "diags_loop snapshot errorsMap [] actions = Inr actions"
| "diags_loop snapshot errorsMap (diag # diags) actions =
     (case errors_loop snapshot diag (lookupList errorsMap (pd_Message diag)) actions of
        Inl err \<Rightarrow> Inl err
      | Inr actions' \<Rightarrow> diags_loop snapshot errorsMap diags actions')"

text \<open>SuggestedFixes. The nil slice of \<open>return nil, nil\<close> is the empty list.\<close>

definition SuggestedFixes ::
  "source_Snapshot \<Rightarrow> protocol_Diagnostic list \<Rightarrow> error + protocol_CodeAction list" where
  "SuggestedFixes snapshot diags =
     (case ModTidyHandle snapshot of
        Inl err \<Rightarrow> if err = ErrTmpModfileUnsupported then Inr [] else Inl err
      | Inr mth \<Rightarrow>
          (case Tidy mth of
             Inl err \<Rightarrow> Inl err
           | Inr diagnostics \<Rightarrow>
               (let errorsMap = errorsMap_loop diagnostics Map.empty
                in diags_loop snapshot errorsMap diags [])))"

section \<open>ExtractGoCommandError\<close>

subsection \<open>The library calls on strings\<close>

text \<open>
  A Go string is a sequence of bytes, here a list of 8-bit characters.
  strings.Split with the one-byte separator \<open>:\<close> cuts at every separator and
  always returns at least one piece.
\<close>

fun Split :: "string \<Rightarrow> char \<Rightarrow> string list" where
  "Split [] sep = [[]]"
| "Split (c # cs) sep =
     (if c = sep then [] # Split cs sep
      else case Split cs sep of
             [] \<Rightarrow> [[c]]
           | piece # pieces \<Rightarrow> (c # piece) # pieces)"

text \<open>
  strings.TrimSpace removes leading and trailing white space as unicode.IsSpace
  defines it. \<open>spaceRunes\<close> lists the UTF-8 encodings of those code points:
  tab, line feed, vertical tab, form feed, carriage return, space, U+0085, U+00A0,
  U+1680, U+2000 to U+200A, U+2028, U+2029, U+202F, U+205F and U+3000.
\<close>

definition spaceRunes :: "string list" where
  "spaceRunes =
     [[CHR 0x09], [CHR 0x0A], [CHR 0x0B], [CHR 0x0C], [CHR 0x0D], [CHR 0x20],
      [CHR 0xC2, CHR 0x85], [CHR 0xC2, CHR 0xA0],
      [CHR 0xE1, CHR 0x9A, CHR 0x80],
      [CHR 0xE2, CHR 0x80, CHR 0x80], [CHR 0xE2, CHR 0x80, CHR 0x81],
      [CHR 0xE2, CHR 0x80, CHR 0x82], [CHR 0xE2, CHR 0x80, CHR 0x83],
      [CHR 0xE2, CHR 0x80, CHR 0x84], [CHR 0xE2, CHR 0x80, CHR 0x85],
      [CHR 0xE2, CHR 0x80, CHR 0x86], [CHR 0xE2, CHR 0x80, CHR 0x87],
      [CHR 0xE2, CHR 0x80, CHR 0x88], [CHR 0xE2, CHR 0x80, CHR 0x89],
      [CHR 0xE2, CHR 0x80, CHR 0x8A],
      [CHR 0xE2, CHR 0x80, CHR 0xA8], [CHR 0xE2, CHR 0x80, CHR 0xA9],
      [CHR 0xE2, CHR 0x80, CHR 0xAF], [CHR 0xE2, CHR 0x81, CHR 0x9F],
      [CHR 0xE3, CHR 0x80, CHR 0x80]]"

text \<open>The width in bytes of the rune of \<open>runes\<close> that \<open>s\<close> starts with, 0 if none.\<close>

definition leadingWidth :: "string list \<Rightarrow> string \<Rightarrow> nat" where
  "leadingWidth runes s =
     (case find (\<lambda>w. w \<noteq> [] \<and> take (length w) s = w) runes of
        None \<Rightarrow> 0
      | Some w \<Rightarrow> length w)"

function trimRunes :: "string list \<Rightarrow> string \<Rightarrow> string" where
  "trimRunes runes s =
     (if leadingWidth runes s = 0 then s
      else trimRunes runes (drop (leadingWidth runes s) s))"
  by pat_completeness auto
termination
proof (relation "measure (\<lambda>(runes, s). length s)")
  show "wf (measure (\<lambda>(runes, s). length s))" by simp
next
  fix runes :: "string list" and s :: string
  assume nonzero: "leadingWidth runes s \<noteq> 0"
  have "leadingWidth runes s \<le> length s"
  proof (cases "find (\<lambda>w. w \<noteq> [] \<and> take (length w) s = w) runes")
    case None
    then show ?thesis by (simp add: leadingWidth_def)
  next
    case (Some w)
    then have "take (length w) s = w"
      by (auto simp: find_Some_iff)
    then have "length (take (length w) s) = length w"
      by simp
    then have "length w \<le> length s"
      by simp
    with Some show ?thesis by (simp add: leadingWidth_def)
  qed
  with nonzero show "((runes, drop (leadingWidth runes s) s), (runes, s))
                     \<in> measure (\<lambda>(runes, s). length s)"
    by simp
qed

declare trimRunes.simps [simp del]

definition TrimLeft :: "string \<Rightarrow> string" where
  "TrimLeft s = trimRunes spaceRunes s"

definition TrimRight :: "string \<Rightarrow> string" where
  "TrimRight s = rev (trimRunes (map rev spaceRunes) (rev s))"

definition TrimSpace :: "string \<Rightarrow> string" where
  "TrimSpace s = TrimRight (TrimLeft s)"

subsection \<open>The regular expression\<close>

text \<open>
  moduleAtVersionRe is \<open>(?P<module>.*)@(?P<version>.*)\<close>. In Go's regexp syntax
  \<open>.\<close> matches any character except line feed, \<open>*\<close> is greedy, and
  FindStringSubmatch returns the leftmost match, taking among the matches that
  start there the one a backtracking search finds first. The functions below run
  that search for this pattern. The result holds match[1] and match[2];
  \<open>None\<close> is the nil result.
\<close>

definition dot :: "char \<Rightarrow> bool" where
  "dot c \<longleftrightarrow> c \<noteq> CHR 0x0A"

text \<open>With the first group covering \<open>k\<close> characters of \<open>t\<close>: the \<open>@\<close> must come
  next, and the second group takes the longest run that follows.\<close>

definition groupsAt :: "string \<Rightarrow> nat \<Rightarrow> (string \<times> string) option" where
  "groupsAt t k =
     (if k < length t \<and> t ! k = CHR ''@''
      then Some (take k t, takeWhile dot (drop (Suc k) t))
      else None)"

text \<open>The greedy first group: the longest cover first, then one character less.\<close>

fun backtrack :: "string \<Rightarrow> nat \<Rightarrow> (string \<times> string) option" where
  "backtrack t 0 = groupsAt t 0"
| "backtrack t (Suc k) =
     (case groupsAt t (Suc k) of
        Some groups \<Rightarrow> Some groups
      | None \<Rightarrow> backtrack t k)"

text \<open>A match that starts at the head of \<open>t\<close>.\<close>

definition matchHere :: "string \<Rightarrow> (string \<times> string) option" where
  "matchHere t = backtrack t (length (takeWhile dot t))"

text \<open>The leftmost match: every start position in turn, the end of the string
  included.\<close>

fun FindStringSubmatch :: "string \<Rightarrow> (string \<times> string) option" where
  "FindStringSubmatch [] = matchHere []"
| "FindStringSubmatch (c # cs) =
     (case matchHere (c # cs) of
        Some groups \<Rightarrow> Some groups
      | None \<Rightarrow> FindStringSubmatch cs)"

subsection \<open>The scan for a module version\<close>

text \<open>
  module.Check belongs to golang.org/x/mod and is a parameter of the model:
  \<open>Check path version\<close> holds when module.Check returns the nil error.

  The loop over the pieces of the error text. It writes the candidate into \<open>v\<close>
  before checking it, as the source does.
\<close>

fun segments_loop ::
  "(string \<Rightarrow> string \<Rightarrow> bool) \<Rightarrow> string list \<Rightarrow> module_Version \<Rightarrow> module_Version" where
  "segments_loop Check [] v = v"
| "segments_loop Check (s # ss) v =
     (let s = TrimSpace s in
      case FindStringSubmatch s of
        None \<Rightarrow> segments_loop Check ss v
      | Some (match1, match2) \<Rightarrow>
          (let v = v\<lparr>Path := match1, Version := match2\<rparr> in
           if Check (Path v) (Version v) then v
           else segments_loop Check ss v))"

definition extractVersion :: "(string \<Rightarrow> string \<Rightarrow> bool) \<Rightarrow> string \<Rightarrow> module_Version" where
  "extractVersion Check loadErr =
     segments_loop Check (Split loadErr CHR '':'') \<lparr>Path = [], Version = []\<rparr>"

subsection \<open>Locating the statement\<close>

text \<open>
  Modelled from the spec: span.NewPoint and span.New are not among the source
  files. In the spec the position mapper turns a byte offset into a line and a
  column; the model keeps the three numbers of a point and the three parts of a
  span as they are passed.
\<close>

definition NewPoint :: "int \<Rightarrow> int \<Rightarrow> int \<Rightarrow> span_Point" where
  "NewPoint l c offset = \<lparr>pt_Line = l, pt_Column = c, pt_Offset = offset\<rparr>"

definition New :: "URI \<Rightarrow> span_Point \<Rightarrow> span_Point \<Rightarrow> span_Span" where
  "New uri start end' = \<lparr>sp_URI = uri, sp_Start = start, sp_End = end'\<rparr>"

definition toPoint :: "protocol_ColumnMapper \<Rightarrow> int \<Rightarrow> error + span_Point" where
  "toPoint m offset =
     (case ToPosition m offset of
        Inl err \<Rightarrow> Inl err
      | Inr (l, c) \<Rightarrow> Inr (NewPoint l c offset))"

definition rangeFromPositions ::
  "URI \<Rightarrow> protocol_ColumnMapper \<Rightarrow> modfile_Position \<Rightarrow> modfile_Position
     \<Rightarrow> error + protocol_Range" where
  "rangeFromPositions uri m s e =
     (case toPoint m (Byte s) of
        Inl err \<Rightarrow> Inl err
      | Inr start \<Rightarrow>
          (case toPoint m (Byte e) of
             Inl err \<Rightarrow> Inl err
           | Inr end' \<Rightarrow> MapperRange m (New uri start end')))"

text \<open>The closure toDiagnostic. The literal sets no Source, which leaves it empty.\<close>

definition toDiagnostic ::
  "source_FileHandle \<Rightarrow> protocol_ColumnMapper \<Rightarrow> string \<Rightarrow> modfile_Line
     \<Rightarrow> error + source_Diagnostic" where
  "toDiagnostic fh m loadErr line =
     (case rangeFromPositions (fh_URI fh) m (line_Start line) (line_End line) of
        Inl err \<Rightarrow> Inl err
      | Inr rng \<Rightarrow>
          Inr \<lparr>sd_Message = loadErr, sd_Range = rng,
               sd_Severity = SeverityError, sd_Source = []\<rparr>)"

text \<open>The three search loops. \<open>None\<close> means that the loop ended without returning.\<close>

fun Require_loop ::
  "(modfile_Line \<Rightarrow> error + source_Diagnostic) \<Rightarrow> module_Version \<Rightarrow> modfile_Require list
     \<Rightarrow> (error + source_Diagnostic) option" where
  "Require_loop toDiag v [] = None"
| "Require_loop toDiag v (req # reqs) =
     (if req_Mod req \<noteq> v then Require_loop toDiag v reqs
      else Some (toDiag (req_Syntax req)))"

fun Exclude_loop ::
  "(modfile_Line \<Rightarrow> error + source_Diagnostic) \<Rightarrow> module_Version \<Rightarrow> modfile_Exclude list
     \<Rightarrow> (error + source_Diagnostic) option" where
  "Exclude_loop toDiag v [] = None"
| "Exclude_loop toDiag v (ex # exs) =
     (if ex_Mod ex \<noteq> v then Exclude_loop toDiag v exs
      else Some (toDiag (ex_Syntax ex)))"

fun Replace_loop ::
  "(modfile_Line \<Rightarrow> error + source_Diagnostic) \<Rightarrow> module_Version \<Rightarrow> modfile_Replace list
     \<Rightarrow> (error + source_Diagnostic) option" where
  "Replace_loop toDiag v [] = None"
| "Replace_loop toDiag v (rep # reps) =
     (if rep_New rep \<noteq> v \<and> rep_Old rep \<noteq> v then Replace_loop toDiag v reps
      else Some (toDiag (rep_Syntax rep)))"

text \<open>ExtractGoCommandError. \<open>loadErr\<close> is the text of the error, loadErr.Error().\<close>

definition ExtractGoCommandError ::
  "(string \<Rightarrow> string \<Rightarrow> bool) \<Rightarrow> source_Snapshot \<Rightarrow> source_FileHandle \<Rightarrow> string
     \<Rightarrow> error + source_Diagnostic" where
  "ExtractGoCommandError Check snapshot fh loadErr =
     (let v = extractVersion Check loadErr in
      case ParseModHandle snapshot fh of
        Inl err \<Rightarrow> Inl err
      | Inr pmh \<Rightarrow>
          (case Parse pmh of
             Inl err \<Rightarrow> Inl err
           | Inr (parsed, m) \<Rightarrow>
               (case Require_loop (toDiagnostic fh m loadErr) v (Require parsed) of
                  Some result \<Rightarrow> result
                | None \<Rightarrow>
                    (case Exclude_loop (toDiagnostic fh m loadErr) v (Exclude parsed) of
                       Some result \<Rightarrow> result
                     | None \<Rightarrow>
                         (case Replace_loop (toDiagnostic fh m loadErr) v (Replace parsed) of
                            Some result \<Rightarrow> result
                          | None \<Rightarrow> Inl (Errorf (''no diagnostics for '' @ loadErr)))))))"

section \<open>Notions used by the properties\<close>

text \<open>
  The definitions of this section are not part of the program. They name what
  the properties speak about: \<open>fixAction\<close> is the body of the innermost loop of
  SuggestedFixes, the others are plain list functions.
\<close>

text \<open>The identity of the file that a URI resolves to, if it resolves.\<close>

definition fileIdentity :: "source_Snapshot \<Rightarrow> URI \<Rightarrow> source_FileIdentity option" where
  "fileIdentity snapshot uri =
     (case GetFile snapshot uri of Inl err \<Rightarrow> None | Inr fh \<Rightarrow> Some (fh_Identity fh))"

text \<open>The action that the body of the innermost loop builds for one fix.\<close>

definition fixAction ::
  "source_Snapshot \<Rightarrow> protocol_Diagnostic \<Rightarrow> source_SuggestedFix \<Rightarrow> error + protocol_CodeAction" where
  "fixAction snapshot diag fix =
     Edits_loop snapshot (fix_Edits fix)
       \<lparr>ca_Title = fix_Title fix, ca_Kind = QuickFix,
        ca_Diagnostics = [diag], ca_Edit = \<lparr>DocumentChanges = []\<rparr>\<rparr>"

text \<open>All results if none is an error, else the first error.\<close>

fun firstErrorOrAll :: "(error + 'a) list \<Rightarrow> error + 'a list" where
  "firstErrorOrAll [] = Inr []"
| "firstErrorOrAll (Inl err # rs) = Inl err"
| "firstErrorOrAll (Inr a # rs) =
     (case firstErrorOrAll rs of Inl err \<Rightarrow> Inl err | Inr as \<Rightarrow> Inr (a # as))"

text \<open>The triples (diagnostic, error, fix) in the order of the three loops.\<close>

definition matchedFixes ::
  "source_Error list \<Rightarrow> protocol_Diagnostic list
     \<Rightarrow> (protocol_Diagnostic \<times> source_Error \<times> source_SuggestedFix) list" where
  "matchedFixes errs diags =
     concat (map (\<lambda>d.
       concat (map (\<lambda>e. map (\<lambda>fix. (d, e, fix)) (e_SuggestedFixes e))
         (filter (sameDiagnostic d) errs))) diags)"

text \<open>The document change of one touched file.\<close>

definition documentChange ::
  "source_Snapshot \<Rightarrow> URI \<times> protocol_TextEdit list \<Rightarrow> protocol_TextDocumentEdit option" where
  "documentChange snapshot touched =
     (case GetFile snapshot (fst touched) of
        Inl err \<Rightarrow> None
      | Inr fh \<Rightarrow>
          Some \<lparr>tde_TextDocument =
                  \<lparr>vtdi_Version = fh_Version fh,
                    vtdi_TextDocumentIdentifier = \<lparr>tdi_URI = URIFromSpanURI (fh_URI fh)\<rparr>\<rparr>,
                tde_Edits = snd touched\<rparr>)"

text \<open>The candidates of an error text: the groups of each piece that the
  pattern matches, in the order of the pieces.\<close>

definition candidates :: "string \<Rightarrow> (string \<times> string) list" where
  "candidates loadErr =
     List.map_filter (\<lambda>s. FindStringSubmatch (TrimSpace s)) (Split loadErr CHR '':'')"

text \<open>The split of a segment at its last \<open>@\<close>: everything before it and
  everything after it; \<open>None\<close> when the segment has no \<open>@\<close>.\<close>

fun splitAtLast :: "string \<Rightarrow> (string \<times> string) option" where
  "splitAtLast [] = None"
| "splitAtLast (c # cs) =
     (case splitAtLast cs of
        Some (module, version) \<Rightarrow> Some (c # module, version)
      | None \<Rightarrow> if c = CHR ''@'' then Some ([], cs) else None)"

text \<open>The extraction as the specification words it: every trimmed segment is
  split at its last \<open>@\<close>, the first valid candidate wins, and without a valid
  candidate the token is the zero value.\<close>

fun firstValid :: "(string \<Rightarrow> string \<Rightarrow> bool) \<Rightarrow> string list \<Rightarrow> module_Version" where
  "firstValid Check [] = \<lparr>Path = [], Version = []\<rparr>"
| "firstValid Check (s # ss) =
     (case splitAtLast (TrimSpace s) of
        None \<Rightarrow> firstValid Check ss
      | Some (module, version) \<Rightarrow>
          if Check module version then \<lparr>Path = module, Version = version\<rparr>
          else firstValid Check ss)"

definition claimedVersion :: "(string \<Rightarrow> string \<Rightarrow> bool) \<Rightarrow> string \<Rightarrow> module_Version" where
  "claimedVersion Check loadErr = firstValid Check (Split loadErr CHR '':'')"

section \<open>Example values\<close>

text \<open>A workspace with the files go.mod and main.go, and three errors of the tidy
  analysis.\<close>

definition rangeAt :: "nat \<Rightarrow> protocol_Range" where
  "rangeAt n = \<lparr>Start = \<lparr>Line = n, Character = 0\<rparr>, End = \<lparr>Line = n, Character = 8\<rparr>\<rparr>"

definition exampleFile :: "URI \<Rightarrow> source_FileHandle" where
  "exampleFile uri =
     \<lparr>fh_URI = uri, fh_Version = 3,
      fh_Identity = \<lparr>fi_URI = uri, fi_Version = 3, fi_Identifier = ''sha''\<rparr>\<rparr>"

definition exampleGetFile :: "URI \<Rightarrow> error + source_FileHandle" where
  "exampleGetFile uri =
     (if uri = ''go.mod'' \<or> uri = ''main.go'' then Inr (exampleFile uri)
      else Inl (CollaboratorError ''no such file''))"

definition exampleFix :: "string \<Rightarrow> URI \<Rightarrow> source_SuggestedFix" where
  "exampleFix title uri =
     \<lparr>fix_Title = title,
      fix_Edits = [(uri, [\<lparr>te_Range = rangeAt 2, te_NewText = []\<rparr>])]\<rparr>"

definition errUnused :: source_Error where
  "errUnused =
     \<lparr>e_URI = ''go.mod'', e_Range = rangeAt 2,
      e_Message = ''example.com/a is not used in this module'',
      e_Category = ''go mod tidy'',
      e_SuggestedFixes = [exampleFix ''Remove dependency'' ''go.mod'']\<rparr>"

definition errMissing :: source_Error where
  "errMissing =
     \<lparr>e_URI = ''main.go'', e_Range = rangeAt 5,
      e_Message = ''example.com/b is not in your go.mod file'',
      e_Category = ''go mod tidy'',
      e_SuggestedFixes = [exampleFix ''Add to go.mod'' ''go.mod'']\<rparr>"

definition errSyntax :: source_Error where
  "errSyntax =
     \<lparr>e_URI = ''go.mod'', e_Range = rangeAt 7,
      e_Message = ''unknown directive'',
      e_Category = ''syntax'',
      e_SuggestedFixes = []\<rparr>"

definition exampleSnapshot :: "source_Error list \<Rightarrow> source_Snapshot" where
  "exampleSnapshot errs =
     \<lparr>ModFile = ''go.mod'', GetFile = exampleGetFile,
      ModTidyHandle = Inr \<lparr>Tidy = Inr errs\<rparr>,
      ParseModHandle = (\<lambda>fh. Inl (CollaboratorError ''not parsed''))\<rparr>"

text \<open>The diagnostic that a client holds for an error of the analysis.\<close>

definition presented :: "source_Error \<Rightarrow> protocol_Diagnostic" where
  "presented e =
     \<lparr>pd_Range = e_Range e, pd_Severity = SeverityWarning,
      pd_Source = e_Category e, pd_Message = e_Message e\<rparr>"

text \<open>The action that the examples build from a fix that edits go.mod.\<close>

definition exampleAction :: "string \<Rightarrow> protocol_Diagnostic \<Rightarrow> protocol_CodeAction" where
  "exampleAction title d =
     \<lparr>ca_Title = title, ca_Kind = QuickFix, ca_Diagnostics = [d],
      ca_Edit = \<lparr>DocumentChanges =
        [\<lparr>tde_TextDocument =
             \<lparr>vtdi_Version = 3, vtdi_TextDocumentIdentifier = \<lparr>tdi_URI = ''go.mod''\<rparr>\<rparr>,
           tde_Edits = [\<lparr>te_Range = rangeAt 2, te_NewText = []\<rparr>]\<rparr>]\<rparr>\<rparr>"

text \<open>An error whose fix touches go.mod and a file that does not resolve.\<close>

definition errTwoFiles :: source_Error where
  "errTwoFiles =
     errUnused\<lparr>e_SuggestedFixes :=
       [\<lparr>fix_Title = ''Move requirement'',
         fix_Edits = [(''go.mod'', [\<lparr>te_Range = rangeAt 2, te_NewText = []\<rparr>]),
                      (''vendor/modules.txt'', [\<lparr>te_Range = rangeAt 0, te_NewText = []\<rparr>])]\<rparr>]\<rparr>"

text \<open>The same message and category reported at a second range.\<close>

definition errMissingAgain :: source_Error where
  "errMissingAgain = errMissing\<lparr>e_URI := ''util.go'', e_Range := rangeAt 9\<rparr>"

text \<open>A snapshot without manifest whose analysis still reports an error, and a
  snapshot whose manifest does not resolve and whose toolchain does not support
  the analysis.\<close>

definition noManifestSnapshot :: source_Snapshot where
  "noManifestSnapshot = (exampleSnapshot [errUnused])\<lparr>ModFile := []\<rparr>"

definition unsupportedSnapshot :: "URI \<Rightarrow> source_Snapshot" where
  "unsupportedSnapshot uri =
     \<lparr>ModFile = uri, GetFile = exampleGetFile,
      ModTidyHandle = Inl ErrTmpModfileUnsupported,
      ParseModHandle = (\<lambda>fh. Inl (CollaboratorError ''not parsed''))\<rparr>"

text \<open>
  module.Check accepts the module example.com at version v1.2.2. It rejects the
  other candidates of the examples: the path foo, whose first element has no
  dot, a path that holds a line feed or a space, and the versions bar and
  v/v1.2.2.mod, which are not semantic versions. \<open>exampleCheck\<close> decides these
  candidates as module.Check does.
\<close>

definition exampleCheck :: "string \<Rightarrow> string \<Rightarrow> bool" where
  "exampleCheck path version \<longleftrightarrow> path = ''example.com'' \<and> version = ''v1.2.2''"

definition exampleError :: string where
  "exampleError =
     ''go: example.com@v1.2.2: reading example.com/@v/v1.2.2.mod: no such file or directory''"

text \<open>An error text of two lines, each with an \<open>@\<close>.\<close>

definition twoLineError :: string where
  "twoLineError = ''example.com@v1.2.2'' @ [CHR 0x0A] @ ''foo@bar''"

text \<open>A parsed go.mod with two require statements and one replace statement, a
  mapper for lines of 40 bytes, and a snapshot that parses to them.\<close>

definition exampleLine :: "int \<Rightarrow> int \<Rightarrow> modfile_Line" where
  "exampleLine s e =
     \<lparr>line_Start = \<lparr>pos_Line = s div 40 + 1, pos_LineRune = s mod 40 + 1, Byte = s\<rparr>,
      line_End = \<lparr>pos_Line = e div 40 + 1, pos_LineRune = e mod 40 + 1, Byte = e\<rparr>\<rparr>"

definition exampleParsed :: modfile_File where
  "exampleParsed =
     \<lparr>Require =
        [\<lparr>req_Mod = \<lparr>Path = ''example.com'', Version = ''v1.2.2''\<rparr>,
          req_Syntax = exampleLine 40 66\<rparr>,
         \<lparr>req_Mod = \<lparr>Path = ''foo'', Version = ''v1.0.0''\<rparr>,
          req_Syntax = exampleLine 80 98\<rparr>],
      Exclude = [],
      Replace =
        [\<lparr>rep_Old = \<lparr>Path = ''example.com'', Version = ''v1.2.2''\<rparr>,
          rep_New = \<lparr>Path = ''../local'', Version = []\<rparr>,
          rep_Syntax = exampleLine 120 158\<rparr>]\<rparr>"

definition exampleMapper :: protocol_ColumnMapper where
  "exampleMapper =
     \<lparr>ToPosition = (\<lambda>offset.
        if 0 \<le> offset \<and> offset < 200 then Inr (offset div 40 + 1, offset mod 40 + 1)
        else Inl (CollaboratorError ''offset out of range'')),
      MapperRange = (\<lambda>s.
        Inr \<lparr>Start = \<lparr>Line = nat (pt_Line (sp_Start s) - 1),
                       Character = nat (pt_Column (sp_Start s) - 1)\<rparr>,
             End = \<lparr>Line = nat (pt_Line (sp_End s) - 1),
                     Character = nat (pt_Column (sp_End s) - 1)\<rparr>\<rparr>)\<rparr>"

definition parsedSnapshot :: source_Snapshot where
  "parsedSnapshot =
     \<lparr>ModFile = ''go.mod'', GetFile = exampleGetFile,
      ModTidyHandle = Inl ErrTmpModfileUnsupported,
      ParseModHandle = (\<lambda>fh. Inr \<lparr>Parse = Inr (exampleParsed, exampleMapper)\<rparr>)\<rparr>"

text \<open>An error text whose only candidate, foo at v1.0.0, is not valid.\<close>

definition invalidPathError :: string where
  "invalidPathError = ''go: foo@v1.0.0: malformed module path: missing dot in first path element''"

section \<open>Properties of Diagnostics\<close>

lemma Diagnostics_loop_lookup:
  "Diagnostics_loop snapshot es reports = Inr reports' \<Longrightarrow>
   lookupList reports' ident =
     lookupList reports ident @
       map errorDiagnostic (filter (\<lambda>e. fileIdentity snapshot (e_URI e) = Some ident) es)"
proof (induction es arbitrary: reports)
  case Nil
  then show ?case by simp
next
  case (Cons e es)
  then show ?case
    by (auto simp: fileIdentity_def lookupList_def split: sum.splits)
qed

lemma Diagnostics_loop_dom:
  "Diagnostics_loop snapshot es reports = Inr reports' \<Longrightarrow>
   dom reports' = dom reports \<union> {ident. \<exists>e\<in>set es. fileIdentity snapshot (e_URI e) = Some ident}"
proof (induction es arbitrary: reports)
  case Nil
  then show ?case by simp
next
  case (Cons e es)
  from Cons.prems obtain fh where fh: "GetFile snapshot (e_URI e) = Inr fh"
    by (auto split: sum.splits)
  let ?r = "reports(fh_Identity fh \<mapsto> lookupList reports (fh_Identity fh) @ [errorDiagnostic e])"
  from Cons.prems fh have "Diagnostics_loop snapshot es ?r = Inr reports'"
    by simp
  then have "dom reports' =
      dom ?r \<union> {ident. \<exists>e\<in>set es. fileIdentity snapshot (e_URI e) = Some ident}"
    by (rule Cons.IH)
  moreover have "fileIdentity snapshot (e_URI e) = Some (fh_Identity fh)"
    using fh by (simp add: fileIdentity_def)
  ultimately show ?case
    by auto
qed

lemma Diagnostics_loop_resolves:
  "Diagnostics_loop snapshot es reports = Inr reports' \<Longrightarrow> e \<in> set es \<Longrightarrow>
   \<exists>fh. GetFile snapshot (e_URI e) = Inr fh"
proof (induction es arbitrary: reports)
  case Nil
  then show ?case by simp
next
  case (Cons e' es)
  then show ?case
    by (auto split: sum.splits)
qed

lemma Diagnostics_loop_fails:
  "Diagnostics_loop snapshot es reports = Inl err \<Longrightarrow>
   \<exists>e\<in>set es. GetFile snapshot (e_URI e) = Inl err"
proof (induction es arbitrary: reports)
  case Nil
  then show ?case by simp
next
  case (Cons e' es)
  then show ?case
    by (auto split: sum.splits)
qed


lemma Diagnostics_Inr_cases:
  assumes "Diagnostics snapshot = Inr reports"
    and "ModFile snapshot \<noteq> []"
    and "ModTidyHandle snapshot \<noteq> Inl ErrTmpModfileUnsupported"
  shows "\<exists>fh mth errs. GetFile snapshot (ModFile snapshot) = Inr fh \<and>
           ModTidyHandle snapshot = Inr mth \<and> Tidy mth = Inr errs \<and>
           Diagnostics_loop snapshot errs (Map.empty(fh_Identity fh \<mapsto> [])) = Inr reports"
  using assms
  by (auto simp: Diagnostics_def Let_def split: sum.splits if_splits)

text \<open>
  Claim C5. A call of Diagnostics that succeeds on a snapshot with a manifest and
  with a toolchain that supports the analysis returns a map whose keys are the
  identity of the manifest's own file together with the identities of the files
  that the analysis errors name, and nothing else. The manifest's key is there
  even when the analysis reports no error, then with the empty list. Each key
  holds the diagnostics of the errors of that file, in the order of the analysis.
  A map holds one list for each key, so no key occurs twice.
\<close>

theorem Diagnostics_grouping:
  assumes "ModFile snapshot \<noteq> []"
    and "ModTidyHandle snapshot \<noteq> Inl ErrTmpModfileUnsupported"
    and "Diagnostics snapshot = Inr reports"
  shows "\<exists>fh mth errs.
           GetFile snapshot (ModFile snapshot) = Inr fh \<and>
           ModTidyHandle snapshot = Inr mth \<and> Tidy mth = Inr errs \<and>
           fh_Identity fh \<in> dom reports \<and>
           dom reports =
             insert (fh_Identity fh)
               {ident. \<exists>e\<in>set errs. fileIdentity snapshot (e_URI e) = Some ident} \<and>
           (\<forall>ident\<in>dom reports.
              reports ident =
                Some (map errorDiagnostic
                  (filter (\<lambda>e. fileIdentity snapshot (e_URI e) = Some ident) errs))) \<and>
           (errs = [] \<longrightarrow> reports = Map.empty(fh_Identity fh \<mapsto> []))"
proof -
  from assms obtain fh mth errs where
    fh: "GetFile snapshot (ModFile snapshot) = Inr fh" and
    mth: "ModTidyHandle snapshot = Inr mth" and
    errs: "Tidy mth = Inr errs" and
    loop: "Diagnostics_loop snapshot errs (Map.empty(fh_Identity fh \<mapsto> [])) = Inr reports"
    using Diagnostics_Inr_cases by blast
  have keys: "dom reports =
      insert (fh_Identity fh)
        {ident. \<exists>e\<in>set errs. fileIdentity snapshot (e_URI e) = Some ident}"
    using Diagnostics_loop_dom [OF loop] by simp
  have lists: "reports ident =
      Some (map errorDiagnostic
        (filter (\<lambda>e. fileIdentity snapshot (e_URI e) = Some ident) errs))"
    if "ident \<in> dom reports" for ident
  proof -
    from that obtain ds where ds: "reports ident = Some ds" by auto
    have "lookupList reports ident =
        lookupList (Map.empty(fh_Identity fh \<mapsto> [])) ident @
          map errorDiagnostic
            (filter (\<lambda>e. fileIdentity snapshot (e_URI e) = Some ident) errs)"
      by (rule Diagnostics_loop_lookup [OF loop])
    moreover have "lookupList (Map.empty(fh_Identity fh \<mapsto> [])) ident = []"
      by (simp add: lookupList_def)
    ultimately show ?thesis
      using ds by (simp add: lookupList_def)
  qed
  have none: "reports = Map.empty(fh_Identity fh \<mapsto> [])" if "errs = []"
    using loop that by simp
  from fh mth errs keys lists none show ?thesis
    by blast
qed

lemma exampleDiagnostics:
  "Diagnostics (exampleSnapshot [errUnused, errMissing, errSyntax]) =
     Inr (Map.empty(fh_Identity (exampleFile ''go.mod'') \<mapsto>
             [errorDiagnostic errUnused, errorDiagnostic errSyntax],
           fh_Identity (exampleFile ''main.go'') \<mapsto> [errorDiagnostic errMissing]))"
  by (simp add: Diagnostics_def exampleSnapshot_def exampleGetFile_def exampleFile_def
      lookupList_def errUnused_def errMissing_def errSyntax_def fun_upd_twist Let_def)


theorem Diagnostics_grouping_witness:
  "ModFile (exampleSnapshot [errUnused, errMissing, errSyntax]) \<noteq> [] \<and>
   ModTidyHandle (exampleSnapshot [errUnused, errMissing, errSyntax])
     \<noteq> Inl ErrTmpModfileUnsupported \<and>
   Diagnostics (exampleSnapshot [errUnused, errMissing, errSyntax]) =
     Inr (Map.empty(fh_Identity (exampleFile ''go.mod'') \<mapsto>
             [errorDiagnostic errUnused, errorDiagnostic errSyntax],
           fh_Identity (exampleFile ''main.go'') \<mapsto> [errorDiagnostic errMissing])) \<and>
   dom (Map.empty(fh_Identity (exampleFile ''go.mod'') \<mapsto>
             [errorDiagnostic errUnused, errorDiagnostic errSyntax],
           fh_Identity (exampleFile ''main.go'') \<mapsto> [errorDiagnostic errMissing])) =
     insert (fh_Identity (exampleFile ''go.mod''))
       {ident. \<exists>e\<in>set [errUnused, errMissing, errSyntax].
          fileIdentity (exampleSnapshot [errUnused, errMissing, errSyntax]) (e_URI e)
            = Some ident}"
proof -
  let ?snap = "exampleSnapshot [errUnused, errMissing, errSyntax]"
  let ?reports = "Map.empty(fh_Identity (exampleFile ''go.mod'') \<mapsto>
             [errorDiagnostic errUnused, errorDiagnostic errSyntax],
           fh_Identity (exampleFile ''main.go'') \<mapsto> [errorDiagnostic errMissing])"
  have h1: "ModFile ?snap \<noteq> []"
    by (simp add: exampleSnapshot_def)
  have h2: "ModTidyHandle ?snap \<noteq> Inl ErrTmpModfileUnsupported"
    by (simp add: exampleSnapshot_def)
  have h3: "Diagnostics ?snap = Inr ?reports"
    by (rule exampleDiagnostics)
  from Diagnostics_grouping [OF h1 h2 h3] obtain fh mth errs where
    fh: "GetFile ?snap (ModFile ?snap) = Inr fh" and
    mth: "ModTidyHandle ?snap = Inr mth" and errs: "Tidy mth = Inr errs" and
    keys: "dom ?reports =
       insert (fh_Identity fh)
         {ident. \<exists>e\<in>set errs. fileIdentity ?snap (e_URI e) = Some ident}"
    by blast
  from mth have "mth = \<lparr>Tidy = Inr [errUnused, errMissing, errSyntax]\<rparr>"
    by (simp add: exampleSnapshot_def)
  with errs have "errs = [errUnused, errMissing, errSyntax]"
    by simp
  moreover from fh have "fh = exampleFile ''go.mod''"
    by (simp add: exampleSnapshot_def exampleGetFile_def)
  ultimately have "dom ?reports =
       insert (fh_Identity (exampleFile ''go.mod''))
         {ident. \<exists>e\<in>set [errUnused, errMissing, errSyntax].
            fileIdentity ?snap (e_URI e) = Some ident}"
    using keys by simp
  with h1 h2 h3 show ?thesis
    by blast
qed


text \<open>
  Claim C8. In a call of Diagnostics that succeeds, every error of the analysis
  is turned into a diagnostic of its file with the error's message and range,
  with Source equal to the error's Category, with Severity Error exactly when
  the Category is "syntax" and Severity Warning exactly when it is anything else;
  and every diagnostic of the result comes from an error of the analysis in
  this way.
\<close>

theorem Diagnostics_severity:
  assumes "ModFile snapshot \<noteq> []"
    and "ModTidyHandle snapshot = Inr mth"
    and "Tidy mth = Inr errs"
    and "Diagnostics snapshot = Inr reports"
  shows "(\<forall>e\<in>set errs. \<exists>ident ds d.
            fileIdentity snapshot (e_URI e) = Some ident \<and>
            reports ident = Some ds \<and> d \<in> set ds \<and>
            sd_Message d = e_Message e \<and> sd_Range d = e_Range e \<and>
            sd_Source d = e_Category e \<and>
            (sd_Severity d = SeverityError \<longleftrightarrow> e_Category e = ''syntax'') \<and>
            (sd_Severity d = SeverityWarning \<longleftrightarrow> e_Category e \<noteq> ''syntax'')) \<and>
         (\<forall>ident ds d. reports ident = Some ds \<and> d \<in> set ds \<longrightarrow>
            (\<exists>e\<in>set errs.
               sd_Message d = e_Message e \<and> sd_Range d = e_Range e \<and>
               sd_Source d = e_Category e \<and>
               (sd_Severity d = SeverityError \<longleftrightarrow> e_Category e = ''syntax'') \<and>
               (sd_Severity d = SeverityWarning \<longleftrightarrow> e_Category e \<noteq> ''syntax'')))"
proof -
  have conv: "sd_Message (errorDiagnostic e) = e_Message e \<and>
      sd_Range (errorDiagnostic e) = e_Range e \<and>
      sd_Source (errorDiagnostic e) = e_Category e \<and>
      (sd_Severity (errorDiagnostic e) = SeverityError \<longleftrightarrow> e_Category e = ''syntax'') \<and>
      (sd_Severity (errorDiagnostic e) = SeverityWarning \<longleftrightarrow> e_Category e \<noteq> ''syntax'')"
    for e
    by (simp add: errorDiagnostic_def Let_def)
  from assms(2) have "ModTidyHandle snapshot \<noteq> Inl ErrTmpModfileUnsupported"
    by simp
  then obtain fh :: source_FileHandle and mth' errs' where
    "ModTidyHandle snapshot = Inr mth'" and "Tidy mth' = Inr errs'" and
    "Diagnostics_loop snapshot errs' (Map.empty(fh_Identity fh \<mapsto> [])) = Inr reports"
    using Diagnostics_Inr_cases [OF assms(4) assms(1)] by blast
  with assms(2) assms(3) have
    loop: "Diagnostics_loop snapshot errs (Map.empty(fh_Identity fh \<mapsto> [])) = Inr reports"
    by simp
  have lists: "lookupList reports ident =
      map errorDiagnostic (filter (\<lambda>e. fileIdentity snapshot (e_URI e) = Some ident) errs)"
    for ident
    using Diagnostics_loop_lookup [OF loop, of ident] by (simp add: lookupList_def)
  have forward: "\<exists>ident ds d.
            fileIdentity snapshot (e_URI e) = Some ident \<and>
            reports ident = Some ds \<and> d \<in> set ds \<and>
            sd_Message d = e_Message e \<and> sd_Range d = e_Range e \<and>
            sd_Source d = e_Category e \<and>
            (sd_Severity d = SeverityError \<longleftrightarrow> e_Category e = ''syntax'') \<and>
            (sd_Severity d = SeverityWarning \<longleftrightarrow> e_Category e \<noteq> ''syntax'')"
    if e: "e \<in> set errs" for e
  proof -
    from Diagnostics_loop_resolves [OF loop e] obtain fh' where
      "GetFile snapshot (e_URI e) = Inr fh'" by blast
    then have ident: "fileIdentity snapshot (e_URI e) = Some (fh_Identity fh')"
      by (simp add: fileIdentity_def)
    with e have mem: "errorDiagnostic e \<in> set (lookupList reports (fh_Identity fh'))"
      by (simp add: lists)
    then obtain ds where "reports (fh_Identity fh') = Some ds" and "errorDiagnostic e \<in> set ds"
      by (cases "reports (fh_Identity fh')") (auto simp: lookupList_def)
    with ident conv [of e] show ?thesis
      by blast
  qed
  have backward: "\<exists>e\<in>set errs.
               sd_Message d = e_Message e \<and> sd_Range d = e_Range e \<and>
               sd_Source d = e_Category e \<and>
               (sd_Severity d = SeverityError \<longleftrightarrow> e_Category e = ''syntax'') \<and>
               (sd_Severity d = SeverityWarning \<longleftrightarrow> e_Category e \<noteq> ''syntax'')"
    if "reports ident = Some ds" and "d \<in> set ds" for ident ds d
  proof -
    from that have "d \<in> set (lookupList reports ident)"
      by (simp add: lookupList_def)
    then obtain e where "e \<in> set errs" and "d = errorDiagnostic e"
      by (auto simp: lists)
    with conv [of e] show ?thesis
      by blast
  qed
  from forward backward show ?thesis
    by blast
qed

theorem Diagnostics_severity_witness:
  "ModFile (exampleSnapshot [errUnused, errMissing, errSyntax]) \<noteq> [] \<and>
   ModTidyHandle (exampleSnapshot [errUnused, errMissing, errSyntax]) =
     Inr \<lparr>Tidy = Inr [errUnused, errMissing, errSyntax]\<rparr> \<and>
   Tidy \<lparr>Tidy = Inr [errUnused, errMissing, errSyntax]\<rparr> =
     Inr [errUnused, errMissing, errSyntax] \<and>
   Diagnostics (exampleSnapshot [errUnused, errMissing, errSyntax]) =
     Inr (Map.empty(fh_Identity (exampleFile ''go.mod'') \<mapsto>
             [errorDiagnostic errUnused, errorDiagnostic errSyntax],
           fh_Identity (exampleFile ''main.go'') \<mapsto> [errorDiagnostic errMissing])) \<and>
   (\<exists>e\<in>set [errUnused, errMissing, errSyntax].
      sd_Message (errorDiagnostic errSyntax) = e_Message e \<and>
      sd_Source (errorDiagnostic errSyntax) = e_Category e \<and>
      (sd_Severity (errorDiagnostic errSyntax) = SeverityError \<longleftrightarrow> e_Category e = ''syntax'')) \<and>
   sd_Severity (errorDiagnostic errSyntax) = SeverityError \<and>
   sd_Severity (errorDiagnostic errUnused) = SeverityWarning"
proof -
  let ?errs = "[errUnused, errMissing, errSyntax]"
  let ?snap = "exampleSnapshot ?errs"
  let ?reports = "Map.empty(fh_Identity (exampleFile ''go.mod'') \<mapsto>
             [errorDiagnostic errUnused, errorDiagnostic errSyntax],
           fh_Identity (exampleFile ''main.go'') \<mapsto> [errorDiagnostic errMissing])"
  have h1: "ModFile ?snap \<noteq> []"
    by (simp add: exampleSnapshot_def)
  have h2: "ModTidyHandle ?snap = Inr \<lparr>Tidy = Inr ?errs\<rparr>"
    by (simp add: exampleSnapshot_def)
  have h3: "Tidy \<lparr>Tidy = Inr ?errs\<rparr> = Inr ?errs"
    by simp
  have h4: "Diagnostics ?snap = Inr ?reports"
    by (rule exampleDiagnostics)
  have "?reports (fh_Identity (exampleFile ''go.mod'')) =
      Some [errorDiagnostic errUnused, errorDiagnostic errSyntax]"
    by (simp add: exampleFile_def)
  moreover have "errorDiagnostic errSyntax \<in> set [errorDiagnostic errUnused, errorDiagnostic errSyntax]"
    by simp
  ultimately have "\<exists>e\<in>set ?errs.
      sd_Message (errorDiagnostic errSyntax) = e_Message e \<and>
      sd_Range (errorDiagnostic errSyntax) = e_Range e \<and>
      sd_Source (errorDiagnostic errSyntax) = e_Category e \<and>
      (sd_Severity (errorDiagnostic errSyntax) = SeverityError \<longleftrightarrow> e_Category e = ''syntax'') \<and>
      (sd_Severity (errorDiagnostic errSyntax) = SeverityWarning \<longleftrightarrow> e_Category e \<noteq> ''syntax'')"
    using Diagnostics_severity [OF h1 h2 h3 h4] by blast
  then have "\<exists>e\<in>set ?errs.
      sd_Message (errorDiagnostic errSyntax) = e_Message e \<and>
      sd_Source (errorDiagnostic errSyntax) = e_Category e \<and>
      (sd_Severity (errorDiagnostic errSyntax) = SeverityError \<longleftrightarrow> e_Category e = ''syntax'')"
    by blast
  moreover have "sd_Severity (errorDiagnostic errSyntax) = SeverityError"
    by (simp add: errorDiagnostic_def errSyntax_def Let_def)
  moreover have "sd_Severity (errorDiagnostic errUnused) = SeverityWarning"
    by (simp add: errorDiagnostic_def errUnused_def Let_def)
  ultimately show ?thesis
    using h1 h2 h3 h4 by blast
qed

section \<open>Properties of SuggestedFixes\<close>



lemma firstErrorOrAll_append:
  "firstErrorOrAll (xs @ ys) =
     (case firstErrorOrAll xs of
        Inl err \<Rightarrow> Inl err
      | Inr as \<Rightarrow> (case firstErrorOrAll ys of Inl err \<Rightarrow> Inl err | Inr bs \<Rightarrow> Inr (as @ bs)))"
proof (induction xs rule: firstErrorOrAll.induct)
  case 1
  then show ?case by (simp split: sum.splits)
next
  case (2 err rs)
  then show ?case by simp
next
  case (3 a rs)
  then show ?case by (simp split: sum.splits)
qed

lemma firstErrorOrAll_Inr:
  "firstErrorOrAll rs = Inr as \<longleftrightarrow> rs = map Inr as"
proof (induction rs arbitrary: as rule: firstErrorOrAll.induct)
  case 1
  then show ?case by auto
next
  case (2 err rs)
  then show ?case by auto
next
  case (3 a rs)
  show ?case
  proof (cases "firstErrorOrAll rs")
    case (Inl err)
    have "rs \<noteq> map Inr bs" for bs
      using "3.IH" [of bs] Inl by simp
    then have "Inr a # rs \<noteq> map Inr as"
      by (cases as) auto
    with Inl show ?thesis by simp
  next
    case (Inr bs)
    then have "rs = map Inr bs"
      using "3.IH" [of bs] by simp
    with Inr show ?thesis
      by (cases as) (auto simp: inj_map_eq_map)
  qed
qed

lemma firstErrorOrAll_Inl:
  "firstErrorOrAll rs = Inl err \<Longrightarrow> Inl err \<in> set rs"
proof (induction rs rule: firstErrorOrAll.induct)
  case 1
  then show ?case by simp
next
  case (2 err' rs)
  then show ?case by simp
next
  case (3 a rs)
  then show ?case by (auto split: sum.splits)
qed

lemma firstErrorOrAll_fails:
  "Inl err \<in> set rs \<Longrightarrow> \<exists>err'. firstErrorOrAll rs = Inl err'"
proof (induction rs rule: firstErrorOrAll.induct)
  case 1
  then show ?case by simp
next
  case (2 err' rs)
  then show ?case by simp
next
  case (3 a rs)
  then show ?case by (auto split: sum.splits)
qed

lemma errorsMap_loop_lookup:
  "lookupList (errorsMap_loop errs errorsMap) msg =
     lookupList errorsMap msg @ filter (\<lambda>e. e_Message e = msg) errs"
proof (induction errs arbitrary: errorsMap)
  case Nil
  then show ?case by simp
next
  case (Cons e errs)
  then show ?case
    by (simp add: lookupList_def Let_def)
qed

lemma fixes_loop_eq:
  "fixes_loop snapshot diag fs actions =
     (case firstErrorOrAll (map (fixAction snapshot diag) fs) of
        Inl err \<Rightarrow> Inl err
      | Inr new \<Rightarrow> Inr (actions @ new))"
proof (induction fs arbitrary: actions)
  case Nil
  then show ?case by simp
next
  case (Cons f fs)
  show ?case
  proof (cases "fixAction snapshot diag f")
    case (Inl err)
    then show ?thesis
      by (simp add: fixAction_def)
  next
    case (Inr action)
    then show ?thesis
      by (simp add: fixAction_def Cons.IH split: sum.splits)
  qed
qed

lemma errors_loop_eq:
  "errors_loop snapshot diag errs actions =
     (case firstErrorOrAll (map (fixAction snapshot diag)
             (concat (map e_SuggestedFixes (filter (sameDiagnostic diag) errs)))) of
        Inl err \<Rightarrow> Inl err
      | Inr new \<Rightarrow> Inr (actions @ new))"
proof (induction errs arbitrary: actions)
  case Nil
  then show ?case by simp
next
  case (Cons e errs)
  show ?case
  proof (cases "sameDiagnostic diag e")
    case False
    then show ?thesis by (simp add: Cons.IH)
  next
    case True
    then show ?thesis
      by (simp add: Cons.IH fixes_loop_eq firstErrorOrAll_append split: sum.splits)
  qed
qed

lemma errors_loop_message_filter:
  "errors_loop snapshot diag (filter (\<lambda>e. e_Message e = pd_Message diag) errs) actions =
     errors_loop snapshot diag errs actions"
proof -
  have "filter (sameDiagnostic diag) (filter (\<lambda>e. e_Message e = pd_Message diag) errs) =
      filter (sameDiagnostic diag) errs"
    by (auto simp: sameDiagnostic_def intro: filter_cong)
  then show ?thesis
    by (simp only: errors_loop_eq)
qed

lemma diags_loop_eq:
  "diags_loop snapshot (errorsMap_loop errs Map.empty) diags actions =
     (case firstErrorOrAll (map (\<lambda>(d, e, fix). fixAction snapshot d fix)
             (matchedFixes errs diags)) of
        Inl err \<Rightarrow> Inl err
      | Inr new \<Rightarrow> Inr (actions @ new))"
proof (induction diags arbitrary: actions)
  case Nil
  then show ?case by (simp add: matchedFixes_def)
next
  case (Cons d diags)
  have index: "lookupList (errorsMap_loop errs Map.empty) (pd_Message d) =
      filter (\<lambda>e. e_Message e = pd_Message d) errs"
    unfolding errorsMap_loop_lookup by (simp add: lookupList_def)
  have head: "map (\<lambda>(d, e, fix). fixAction snapshot d fix)
        (concat (map (\<lambda>e. map (\<lambda>fix. (d, e, fix)) (e_SuggestedFixes e))
           (filter (sameDiagnostic d) errs))) =
      map (fixAction snapshot d)
        (concat (map e_SuggestedFixes (filter (sameDiagnostic d) errs)))"
    by (simp add: map_concat comp_def)
  have split: "matchedFixes errs (d # diags) =
      concat (map (\<lambda>e. map (\<lambda>fix. (d, e, fix)) (e_SuggestedFixes e))
           (filter (sameDiagnostic d) errs)) @ matchedFixes errs diags"
    by (simp add: matchedFixes_def)
  let ?here = "firstErrorOrAll (map (fixAction snapshot d)
        (concat (map e_SuggestedFixes (filter (sameDiagnostic d) errs))))"
  let ?rest = "firstErrorOrAll (map (\<lambda>(d, e, fix). fixAction snapshot d fix)
        (matchedFixes errs diags))"
  have step: "errors_loop snapshot d
        (lookupList (errorsMap_loop errs Map.empty) (pd_Message d)) actions =
      (case ?here of Inl err \<Rightarrow> Inl err | Inr new \<Rightarrow> Inr (actions @ new))"
    unfolding index errors_loop_message_filter by (rule errors_loop_eq)
  have whole: "firstErrorOrAll (map (\<lambda>(d, e, fix). fixAction snapshot d fix)
        (matchedFixes errs (d # diags))) =
      (case ?here of
         Inl err \<Rightarrow> Inl err
       | Inr as \<Rightarrow> (case ?rest of Inl err \<Rightarrow> Inl err | Inr bs \<Rightarrow> Inr (as @ bs)))"
    unfolding split map_append firstErrorOrAll_append head by (rule refl)
  show ?case
  proof (cases ?here)
    case (Inl err)
    with step whole show ?thesis by simp
  next
    case (Inr new)
    with step whole show ?thesis
      by (simp add: Cons.IH split: sum.splits)
  qed
qed

lemma SuggestedFixes_eq:
  assumes "ModTidyHandle snapshot = Inr mth" and "Tidy mth = Inr errs"
  shows "SuggestedFixes snapshot diags =
     firstErrorOrAll (map (\<lambda>(d, e, fix). fixAction snapshot d fix) (matchedFixes errs diags))"
  using assms
  by (simp add: SuggestedFixes_def diags_loop_eq split: sum.splits)

lemma matchedFixes_set:
  "(d, e, fix) \<in> set (matchedFixes errs diags) \<longleftrightarrow>
     d \<in> set diags \<and> e \<in> set errs \<and> sameDiagnostic d e \<and> fix \<in> set (e_SuggestedFixes e)"
  by (auto simp: matchedFixes_def)

lemma Edits_loop_Inr:
  "Edits_loop snapshot edits action = Inr action' \<Longrightarrow>
     (\<forall>touched\<in>set edits. \<exists>fh. GetFile snapshot (fst touched) = Inr fh) \<and>
     ca_Title action' = ca_Title action \<and> ca_Kind action' = ca_Kind action \<and>
     ca_Diagnostics action' = ca_Diagnostics action \<and>
     map Some (DocumentChanges (ca_Edit action')) =
       map Some (DocumentChanges (ca_Edit action)) @ map (documentChange snapshot) edits"
proof (induction edits arbitrary: action)
  case Nil
  then show ?case by simp
next
  case (Cons touched edits)
  obtain uri es where touched: "touched = (uri, es)"
    by (cases touched)
  with Cons.prems obtain fh where fh: "GetFile snapshot uri = Inr fh"
    by (auto split: sum.splits)
  from Cons.prems touched fh show ?case
    using Cons.IH by (simp add: documentChange_def)
qed

lemma Edits_loop_Inl:
  "Edits_loop snapshot edits action = Inl err \<Longrightarrow>
     \<exists>touched\<in>set edits. GetFile snapshot (fst touched) = Inl err"
proof (induction edits arbitrary: action)
  case Nil
  then show ?case by simp
next
  case (Cons touched edits)
  then show ?case
    by (cases touched) (auto split: sum.splits)
qed

lemma Edits_loop_fails:
  "touched \<in> set edits \<Longrightarrow> GetFile snapshot (fst touched) = Inl err \<Longrightarrow>
     \<exists>err'. Edits_loop snapshot edits action = Inl err'"
proof (induction edits arbitrary: action)
  case Nil
  then show ?case by simp
next
  case (Cons t edits)
  then show ?case
    by (cases t) (auto split: sum.splits)
qed

lemmas example_defs =
  exampleSnapshot_def exampleGetFile_def exampleFile_def exampleFix_def
  errUnused_def errMissing_def errSyntax_def presented_def exampleAction_def rangeAt_def

lemma exampleSuggestedFixes:
  "SuggestedFixes
     (exampleSnapshot [errMissing, errMissing\<lparr>e_URI := ''util.go''\<rparr>, errUnused])
     [presented errUnused, presented errMissing] =
   Inr [exampleAction ''Remove dependency'' (presented errUnused),
        exampleAction ''Add to go.mod'' (presented errMissing),
        exampleAction ''Add to go.mod'' (presented errMissing)]"
  by (simp add: SuggestedFixes_def example_defs lookupList_def sameDiagnostic_def
      CompareRange_def ComparePosition_def URIFromSpanURI_def Let_def)

lemma fixAction_fields:
  assumes "fixAction snapshot d fix = Inr a"
  shows "ca_Diagnostics a = [d] \<and> ca_Title a = fix_Title fix \<and> ca_Kind a = QuickFix \<and>
     map Some (DocumentChanges (ca_Edit a)) = map (documentChange snapshot) (fix_Edits fix)"
  using Edits_loop_Inr [OF assms [unfolded fixAction_def]] by simp

lemma matched_actions_fields:
  "map Inr actions = map (\<lambda>(d, e, fix). fixAction snapshot d fix) ms \<Longrightarrow>
     map ca_Diagnostics actions = map (\<lambda>(d, e, fix). [d]) ms \<and>
     map ca_Title actions = map (\<lambda>(d, e, fix). fix_Title fix) ms \<and>
     map (\<lambda>a. map Some (DocumentChanges (ca_Edit a))) actions =
       map (\<lambda>(d, e, fix). map (documentChange snapshot) (fix_Edits fix)) ms"
proof (induction ms arbitrary: actions)
  case Nil
  then show ?case by simp
next
  case (Cons m ms)
  obtain d e f where m: "m = (d, e, f)"
    by (cases m)
  from Cons.prems obtain a as where as: "actions = a # as"
    by (cases actions) auto
  with Cons.prems m have head: "fixAction snapshot d f = Inr a" and
    tail: "map Inr as = map (\<lambda>(d, e, fix). fixAction snapshot d fix) ms"
    by simp_all
  from fixAction_fields [OF head] Cons.IH [OF tail] as m show ?case
    by simp
qed

lemma length_matchedFixes:
  "length (matchedFixes errs diags) =
     sum_list (map (\<lambda>d. sum_list (map (\<lambda>e. length (e_SuggestedFixes e))
       (filter (sameDiagnostic d) errs))) diags)"
  by (simp add: matchedFixes_def length_concat comp_def)

text \<open>
  Claim C9. In a call of SuggestedFixes that succeeds, the actions stand in the
  order of the three loops: the input diagnostics in the caller's order; for each
  of them the errors that match it, in the order of the analysis; for each such
  error its suggested fixes in their order (\<open>matchedFixes\<close> lists these
  triples). Nothing is removed: there is one action for each triple, so two
  matched errors with the same fix title give two actions. The Diagnostics field
  of each action is the one-element list of the input diagnostic that matched, and
  its Title is the title of the fix.
\<close>

theorem SuggestedFixes_order:
  assumes "ModTidyHandle snapshot = Inr mth" and "Tidy mth = Inr errs"
    and "SuggestedFixes snapshot diags = Inr actions"
  shows "map Inr actions =
           map (\<lambda>(d, e, fix). fixAction snapshot d fix) (matchedFixes errs diags) \<and>
         length actions =
           sum_list (map (\<lambda>d. sum_list (map (\<lambda>e. length (e_SuggestedFixes e))
             (filter (sameDiagnostic d) errs))) diags) \<and>
         map ca_Diagnostics actions = map (\<lambda>(d, e, fix). [d]) (matchedFixes errs diags) \<and>
         map ca_Title actions = map (\<lambda>(d, e, fix). fix_Title fix) (matchedFixes errs diags)"
proof -
  from assms have all: "map Inr actions =
      map (\<lambda>(d, e, fix). fixAction snapshot d fix) (matchedFixes errs diags)"
    by (simp add: SuggestedFixes_eq firstErrorOrAll_Inr)
  then have "length actions = length (matchedFixes errs diags)"
    by (metis length_map)
  with all matched_actions_fields [OF all] show ?thesis
    by (simp add: length_matchedFixes)
qed

theorem SuggestedFixes_order_witness:
  "ModTidyHandle (exampleSnapshot [errMissing, errMissing\<lparr>e_URI := ''util.go''\<rparr>, errUnused]) =
     Inr \<lparr>Tidy = Inr [errMissing, errMissing\<lparr>e_URI := ''util.go''\<rparr>, errUnused]\<rparr> \<and>
   SuggestedFixes
     (exampleSnapshot [errMissing, errMissing\<lparr>e_URI := ''util.go''\<rparr>, errUnused])
     [presented errUnused, presented errMissing] =
   Inr [exampleAction ''Remove dependency'' (presented errUnused),
        exampleAction ''Add to go.mod'' (presented errMissing),
        exampleAction ''Add to go.mod'' (presented errMissing)] \<and>
   map ca_Diagnostics
     [exampleAction ''Remove dependency'' (presented errUnused),
      exampleAction ''Add to go.mod'' (presented errMissing),
      exampleAction ''Add to go.mod'' (presented errMissing)] =
   map (\<lambda>(d, e, fix). [d])
     (matchedFixes [errMissing, errMissing\<lparr>e_URI := ''util.go''\<rparr>, errUnused]
        [presented errUnused, presented errMissing]) \<and>
   length (matchedFixes [errMissing, errMissing\<lparr>e_URI := ''util.go''\<rparr>, errUnused]
        [presented errUnused, presented errMissing]) = 3"
proof -
  let ?errs = "[errMissing, errMissing\<lparr>e_URI := ''util.go''\<rparr>, errUnused]"
  let ?diags = "[presented errUnused, presented errMissing]"
  let ?actions = "[exampleAction ''Remove dependency'' (presented errUnused),
        exampleAction ''Add to go.mod'' (presented errMissing),
        exampleAction ''Add to go.mod'' (presented errMissing)]"
  have h1: "ModTidyHandle (exampleSnapshot ?errs) = Inr \<lparr>Tidy = Inr ?errs\<rparr>"
    by (simp add: exampleSnapshot_def)
  have h2: "Tidy \<lparr>Tidy = Inr ?errs\<rparr> = Inr ?errs"
    by simp
  have h3: "SuggestedFixes (exampleSnapshot ?errs) ?diags = Inr ?actions"
    by (rule exampleSuggestedFixes)
  have "map ca_Diagnostics ?actions = map (\<lambda>(d, e, fix). [d]) (matchedFixes ?errs ?diags)"
    using SuggestedFixes_order [OF h1 h2 h3] by blast
  moreover from this have "length (matchedFixes ?errs ?diags) = 3"
    by (metis length_map length_Cons list.size(3) numeral_3_eq_3)
  ultimately show ?thesis
    using h1 h3 by blast
qed

text \<open>
  Claim C6. Building the actions is all-or-nothing. If a file touched by a
  suggested fix of a matched error does not resolve, the call returns an error
  and no action list; the error is the one that GetFile gave for a touched file
  of a matched fix. When the call returns actions, every touched file of every
  matched fix resolved, and each action holds one document change for each
  touched file of its fix: no action is built from part of a fix.
\<close>

theorem SuggestedFixes_all_or_nothing:
  assumes "ModTidyHandle snapshot = Inr mth" and "Tidy mth = Inr errs"
  shows "(\<forall>d e fix touched err.
            d \<in> set diags \<and> e \<in> set errs \<and> sameDiagnostic d e \<and>
            fix \<in> set (e_SuggestedFixes e) \<and> touched \<in> set (fix_Edits fix) \<and>
            GetFile snapshot (fst touched) = Inl err \<longrightarrow>
            (\<exists>err' d' e' fix' touched'.
               SuggestedFixes snapshot diags = Inl err' \<and>
               (d', e', fix') \<in> set (matchedFixes errs diags) \<and>
               touched' \<in> set (fix_Edits fix') \<and>
               GetFile snapshot (fst touched') = Inl err')) \<and>
         (\<forall>actions. SuggestedFixes snapshot diags = Inr actions \<longrightarrow>
            map (\<lambda>a. map Some (DocumentChanges (ca_Edit a))) actions =
              map (\<lambda>(d, e, fix). map (documentChange snapshot) (fix_Edits fix))
                (matchedFixes errs diags) \<and>
            (\<forall>(d, e, fix)\<in>set (matchedFixes errs diags). \<forall>touched\<in>set (fix_Edits fix).
               \<exists>fh. GetFile snapshot (fst touched) = Inr fh))"
proof -
  let ?results = "map (\<lambda>(d, e, fix). fixAction snapshot d fix) (matchedFixes errs diags)"
  have eq: "SuggestedFixes snapshot diags = firstErrorOrAll ?results"
    using assms by (rule SuggestedFixes_eq)
  have fails: "\<exists>err' d' e' fix' touched'.
               SuggestedFixes snapshot diags = Inl err' \<and>
               (d', e', fix') \<in> set (matchedFixes errs diags) \<and>
               touched' \<in> set (fix_Edits fix') \<and>
               GetFile snapshot (fst touched') = Inl err'"
    if "d \<in> set diags" and "e \<in> set errs" and "sameDiagnostic d e" and
      "f \<in> set (e_SuggestedFixes e)" and "touched \<in> set (fix_Edits f)" and
      "GetFile snapshot (fst touched) = Inl err" for d e f touched err
  proof -
    from that have "(d, e, f) \<in> set (matchedFixes errs diags)"
      by (simp add: matchedFixes_set)
    moreover from that obtain err1 where "fixAction snapshot d f = Inl err1"
      unfolding fixAction_def using Edits_loop_fails by blast
    ultimately have "Inl err1 \<in> set ?results"
      by force
    then obtain err' where err': "SuggestedFixes snapshot diags = Inl err'"
      unfolding eq using firstErrorOrAll_fails by blast
    then have "Inl err' \<in> set ?results"
      unfolding eq by (rule firstErrorOrAll_Inl)
    then obtain d' e' f' where
      m: "(d', e', f') \<in> set (matchedFixes errs diags)" and
      "fixAction snapshot d' f' = Inl err'"
      by auto
    then obtain touched' where "touched' \<in> set (fix_Edits f')" and
      "GetFile snapshot (fst touched') = Inl err'"
      unfolding fixAction_def using Edits_loop_Inl by blast
    with err' m show ?thesis
      by blast
  qed
  have succeeds: "map (\<lambda>a. map Some (DocumentChanges (ca_Edit a))) actions =
              map (\<lambda>(d, e, fix). map (documentChange snapshot) (fix_Edits fix))
                (matchedFixes errs diags) \<and>
            (\<forall>(d, e, fix)\<in>set (matchedFixes errs diags). \<forall>touched\<in>set (fix_Edits fix).
               \<exists>fh. GetFile snapshot (fst touched) = Inr fh)"
    if ok: "SuggestedFixes snapshot diags = Inr actions" for actions
  proof -
    from ok have all: "map Inr actions = ?results"
      by (simp add: eq firstErrorOrAll_Inr)
    have "\<exists>fh. GetFile snapshot (fst touched) = Inr fh"
      if "(d, e, f) \<in> set (matchedFixes errs diags)" and "touched \<in> set (fix_Edits f)"
      for d e f touched
    proof -
      from that(1) have "fixAction snapshot d f \<in> set ?results"
        by force
      with all obtain a where "fixAction snapshot d f = Inr a"
        by (metis (no_types, lifting) imageE list.set_map)
      from Edits_loop_Inr [OF this [unfolded fixAction_def]] that(2) show ?thesis
        by blast
    qed
    with matched_actions_fields [OF all] show ?thesis
      by blast
  qed
  from fails succeeds show ?thesis
    by blast
qed



lemmas more_example_defs =
  errTwoFiles_def errMissingAgain_def noManifestSnapshot_def unsupportedSnapshot_def

lemmas evaluation_defs =
  SuggestedFixes_def lookupList_def sameDiagnostic_def
  CompareRange_def ComparePosition_def URIFromSpanURI_def Let_def

theorem SuggestedFixes_all_or_nothing_witness:
  "ModTidyHandle (exampleSnapshot [errTwoFiles]) = Inr \<lparr>Tidy = Inr [errTwoFiles]\<rparr> \<and>
   sameDiagnostic (presented errUnused) errTwoFiles \<and>
   GetFile (exampleSnapshot [errTwoFiles]) ''vendor/modules.txt'' =
     Inl (CollaboratorError ''no such file'') \<and>
   GetFile (exampleSnapshot [errTwoFiles]) ''go.mod'' = Inr (exampleFile ''go.mod'') \<and>
   (\<exists>err'. SuggestedFixes (exampleSnapshot [errTwoFiles]) [presented errUnused] = Inl err') \<and>
   SuggestedFixes (exampleSnapshot [errTwoFiles]) [presented errUnused] =
     Inl (CollaboratorError ''no such file'')"
proof -
  let ?snap = "exampleSnapshot [errTwoFiles]"
  let ?touched = "(''vendor/modules.txt'', [\<lparr>te_Range = rangeAt 0, te_NewText = []\<rparr>])"
  let ?fix = "\<lparr>fix_Title = ''Move requirement'',
         fix_Edits = [(''go.mod'', [\<lparr>te_Range = rangeAt 2, te_NewText = []\<rparr>]), ?touched]\<rparr>"
  have h1: "ModTidyHandle ?snap = Inr \<lparr>Tidy = Inr [errTwoFiles]\<rparr>"
    by (simp add: exampleSnapshot_def)
  have h2: "Tidy \<lparr>Tidy = Inr [errTwoFiles]\<rparr> = Inr [errTwoFiles]"
    by simp
  have same: "sameDiagnostic (presented errUnused) errTwoFiles"
    by (simp add: example_defs more_example_defs evaluation_defs)
  have gone: "GetFile ?snap (fst ?touched) = Inl (CollaboratorError ''no such file'')"
    by (simp add: example_defs)
  have there: "GetFile ?snap ''go.mod'' = Inr (exampleFile ''go.mod'')"
    by (simp add: example_defs)
  have "presented errUnused \<in> set [presented errUnused] \<and> errTwoFiles \<in> set [errTwoFiles] \<and>
      sameDiagnostic (presented errUnused) errTwoFiles \<and>
      ?fix \<in> set (e_SuggestedFixes errTwoFiles) \<and> ?touched \<in> set (fix_Edits ?fix) \<and>
      GetFile ?snap (fst ?touched) = Inl (CollaboratorError ''no such file'')"
    using same gone by (simp add: errTwoFiles_def)
  with SuggestedFixes_all_or_nothing [OF h1 h2, of "[presented errUnused]"]
  have "\<exists>err'. SuggestedFixes ?snap [presented errUnused] = Inl err'"
    by blast
  moreover have "SuggestedFixes ?snap [presented errUnused] =
      Inl (CollaboratorError ''no such file'')"
    by (simp add: example_defs more_example_defs evaluation_defs)
  ultimately show ?thesis
    using h1 same gone there by simp
qed

text \<open>
  Claim C1 says that changing one of the three fields of a matching diagnostic
  leaves that diagnostic without any action. This fails when another error of the
  analysis matches the changed diagnostic: the error errMissing is reported at
  line 5 and, with the same message and category, at line 9. The diagnostic of
  line 5 matches errMissing; with its range changed to line 9 it no longer does,
  and SuggestedFixes still returns an action for it, the one of the error at
  line 9.
\<close>

theorem SuggestedFixes_join_counterexample:
  "sameDiagnostic (presented errMissing) errMissing \<and>
   CompareRange (pd_Range ((presented errMissing)\<lparr>pd_Range := rangeAt 9\<rparr>))
     (e_Range errMissing) \<noteq> 0 \<and>
   SuggestedFixes (exampleSnapshot [errMissing, errMissingAgain])
     [(presented errMissing)\<lparr>pd_Range := rangeAt 9\<rparr>] =
   Inr [exampleAction ''Add to go.mod'' ((presented errMissing)\<lparr>pd_Range := rangeAt 9\<rparr>)]"
  by (simp add: example_defs more_example_defs evaluation_defs)

text \<open>
  Claim C1, amended. In a call of SuggestedFixes that succeeds, the actions are
  exactly those built from a fix of an error \<open>e\<close> of the analysis for an input
  diagnostic \<open>d\<close> with \<open>d.Message = e.Message\<close>, \<open>CompareRange d.Range e.Range = 0\<close>
  and \<open>d.Source = e.Category\<close>. A diagnostic that differs from \<open>e\<close> in any one of
  the three fields is not matched with \<open>e\<close> and gets no action from a fix of
  \<open>e\<close>. A diagnostic that no error of the analysis matches in all three fields
  yields no action and no error.
\<close>

theorem SuggestedFixes_join:
  assumes "ModTidyHandle snapshot = Inr mth" and "Tidy mth = Inr errs"
    and "SuggestedFixes snapshot diags = Inr actions"
  shows "(\<forall>a. a \<in> set actions \<longleftrightarrow>
            (\<exists>d e fix. d \<in> set diags \<and> e \<in> set errs \<and> fix \<in> set (e_SuggestedFixes e) \<and>
               pd_Message d = e_Message e \<and>
               CompareRange (pd_Range d) (e_Range e) = 0 \<and>
               pd_Source d = e_Category e \<and>
               fixAction snapshot d fix = Inr a)) \<and>
         (\<forall>d e fix. d \<in> set diags \<and> e \<in> set errs \<and> fix \<in> set (e_SuggestedFixes e) \<and>
               pd_Message d = e_Message e \<and>
               CompareRange (pd_Range d) (e_Range e) = 0 \<and>
               pd_Source d = e_Category e \<longrightarrow>
            (\<exists>a\<in>set actions. fixAction snapshot d fix = Inr a)) \<and>
         (\<forall>d e. pd_Message d \<noteq> e_Message e \<or>
                 CompareRange (pd_Range d) (e_Range e) \<noteq> 0 \<or>
                 pd_Source d \<noteq> e_Category e \<longrightarrow>
            \<not> sameDiagnostic d e \<and>
            (\<forall>ds fix. (d, e, fix) \<notin> set (matchedFixes errs ds))) \<and>
         (\<forall>d. (\<forall>e\<in>set errs. \<not> sameDiagnostic d e) \<longrightarrow>
            SuggestedFixes snapshot [d] = Inr [] \<and>
            (\<forall>a\<in>set actions. ca_Diagnostics a \<noteq> [d]))"
proof -
  let ?results = "map (\<lambda>(d, e, fix). fixAction snapshot d fix) (matchedFixes errs diags)"
  from assms have all: "map Inr actions = ?results"
    by (simp add: SuggestedFixes_eq firstErrorOrAll_Inr)
  have images: "Inr ` set actions = set ?results"
    using all by (metis list.set_map)
  have member: "a \<in> set actions \<longleftrightarrow>
      (\<exists>d e fix. (d, e, fix) \<in> set (matchedFixes errs diags) \<and>
         fixAction snapshot d fix = Inr a)" for a
  proof -
    have "a \<in> set actions \<longleftrightarrow> Inr a \<in> set ?results"
      unfolding images [symmetric] by auto
    also have "\<dots> \<longleftrightarrow> (\<exists>d e fix. (d, e, fix) \<in> set (matchedFixes errs diags) \<and>
         fixAction snapshot d fix = Inr a)"
      by force
    finally show ?thesis .
  qed
  have first: "a \<in> set actions \<longleftrightarrow>
            (\<exists>d e fix. d \<in> set diags \<and> e \<in> set errs \<and> fix \<in> set (e_SuggestedFixes e) \<and>
               pd_Message d = e_Message e \<and>
               CompareRange (pd_Range d) (e_Range e) = 0 \<and>
               pd_Source d = e_Category e \<and>
               fixAction snapshot d fix = Inr a)" for a
    unfolding member matchedFixes_set sameDiagnostic_def by blast
  have emitted: "\<exists>a\<in>set actions. fixAction snapshot d f = Inr a"
    if "d \<in> set diags" and "e \<in> set errs" and "f \<in> set (e_SuggestedFixes e)" and
      "pd_Message d = e_Message e" and "CompareRange (pd_Range d) (e_Range e) = 0" and
      "pd_Source d = e_Category e" for d e f
  proof -
    from that have "(d, e, f) \<in> set (matchedFixes errs diags)"
      by (simp add: matchedFixes_set sameDiagnostic_def)
    then have "fixAction snapshot d f \<in> set ?results"
      by force
    then show ?thesis
      unfolding images [symmetric] by auto
  qed
  have second: "\<not> sameDiagnostic d e \<and> (\<forall>ds fix. (d, e, fix) \<notin> set (matchedFixes errs ds))"
    if "pd_Message d \<noteq> e_Message e \<or> CompareRange (pd_Range d) (e_Range e) \<noteq> 0 \<or>
        pd_Source d \<noteq> e_Category e" for d e
    using that by (auto simp: matchedFixes_set sameDiagnostic_def)
  have third: "SuggestedFixes snapshot [d] = Inr [] \<and>
      (\<forall>a\<in>set actions. ca_Diagnostics a \<noteq> [d])"
    if none: "\<forall>e\<in>set errs. \<not> sameDiagnostic d e" for d
  proof -
    from none have "filter (sameDiagnostic d) errs = []"
      by (simp add: filter_empty_conv)
    then have "matchedFixes errs [d] = []"
      by (simp add: matchedFixes_def)
    then have "SuggestedFixes snapshot [d] = Inr []"
      using SuggestedFixes_eq [OF assms(1) assms(2), of "[d]"] by simp
    moreover have "ca_Diagnostics a \<noteq> [d]" if "a \<in> set actions" for a
    proof -
      from that obtain d' e f where
        m: "(d', e, f) \<in> set (matchedFixes errs diags)" and
        a: "fixAction snapshot d' f = Inr a"
        unfolding member by blast
      from m have "e \<in> set errs" and "sameDiagnostic d' e"
        by (simp_all add: matchedFixes_set)
      with none have "d' \<noteq> d"
        by blast
      with fixAction_fields [OF a] show ?thesis
        by simp
    qed
    ultimately show ?thesis
      by blast
  qed
  from first emitted second third show ?thesis
    by blast
qed

theorem SuggestedFixes_join_witness:
  "ModTidyHandle (exampleSnapshot [errMissing, errMissingAgain]) =
     Inr \<lparr>Tidy = Inr [errMissing, errMissingAgain]\<rparr> \<and>
   SuggestedFixes (exampleSnapshot [errMissing, errMissingAgain])
     [(presented errMissing)\<lparr>pd_Range := rangeAt 9\<rparr>] =
   Inr [exampleAction ''Add to go.mod'' ((presented errMissing)\<lparr>pd_Range := rangeAt 9\<rparr>)] \<and>
   pd_Source (presented errUnused) \<noteq> e_Category errSyntax \<and>
   \<not> sameDiagnostic (presented errUnused) errMissing \<and>
   \<not> sameDiagnostic (presented errUnused) errMissingAgain \<and>
   SuggestedFixes (exampleSnapshot [errMissing, errMissingAgain]) [presented errUnused] = Inr []"
proof -
  let ?errs = "[errMissing, errMissingAgain]"
  let ?snap = "exampleSnapshot ?errs"
  let ?d = "(presented errMissing)\<lparr>pd_Range := rangeAt 9\<rparr>"
  let ?actions = "[exampleAction ''Add to go.mod'' ?d]"
  have h1: "ModTidyHandle ?snap = Inr \<lparr>Tidy = Inr ?errs\<rparr>"
    by (simp add: exampleSnapshot_def)
  have h2: "Tidy \<lparr>Tidy = Inr ?errs\<rparr> = Inr ?errs"
    by simp
  have h3: "SuggestedFixes ?snap [?d] = Inr ?actions"
    by (simp add: example_defs more_example_defs evaluation_defs)
  have differs: "pd_Source (presented errUnused) \<noteq> e_Category errSyntax"
    by (simp add: example_defs)
  have none: "\<forall>e\<in>set ?errs. \<not> sameDiagnostic (presented errUnused) e"
    by (simp add: example_defs more_example_defs evaluation_defs)
  with SuggestedFixes_join [OF h1 h2 h3]
  have "SuggestedFixes ?snap [presented errUnused] = Inr []"
    by blast
  with h1 h3 differs none show ?thesis
    by simp
qed

text \<open>
  Claim C7 says that both functions return an empty result when no manifest is
  configured, and whenever the toolchain does not support the analysis.
  SuggestedFixes never looks at the manifest: on a snapshot without manifest it
  returns whatever the analysis gives, here an action. Diagnostics resolves the
  manifest before it asks for the analysis: when that fails it returns the error
  although the toolchain would have reported the missing capability.
\<close>

theorem early_exits_counterexample:
  "ModFile noManifestSnapshot = [] \<and>
   SuggestedFixes noManifestSnapshot [presented errUnused] =
     Inr [exampleAction ''Remove dependency'' (presented errUnused)] \<and>
   SuggestedFixes noManifestSnapshot [presented errUnused] \<noteq> Inr [] \<and>
   ModTidyHandle (unsupportedSnapshot ''gone.mod'') = Inl ErrTmpModfileUnsupported \<and>
   Diagnostics (unsupportedSnapshot ''gone.mod'') = Inl (CollaboratorError ''no such file'')"
  by (simp add: example_defs more_example_defs evaluation_defs Diagnostics_def)

lemma diags_loop_Inl:
  assumes "diags_loop snapshot (errorsMap_loop errs Map.empty) diags [] = Inl err"
  shows "\<exists>d e fix touched. (d, e, fix) \<in> set (matchedFixes errs diags) \<and>
           touched \<in> set (fix_Edits fix) \<and> GetFile snapshot (fst touched) = Inl err"
proof -
  let ?results = "map (\<lambda>(d, e, fix). fixAction snapshot d fix) (matchedFixes errs diags)"
  from assms have "firstErrorOrAll ?results = Inl err"
    by (simp add: diags_loop_eq split: sum.splits)
  then have "Inl err \<in> set ?results"
    by (rule firstErrorOrAll_Inl)
  then obtain d e f where "(d, e, f) \<in> set (matchedFixes errs diags)" and
    "fixAction snapshot d f = Inl err"
    by auto
  then show ?thesis
    unfolding fixAction_def using Edits_loop_Inl by blast
qed

text \<open>
  Claim C7, amended. Diagnostics returns the empty map and no error when no
  manifest is configured; otherwise it returns the error of GetFile when the
  manifest does not resolve; otherwise the empty map and no error when
  ModTidyHandle returns ErrTmpModfileUnsupported. SuggestedFixes makes no test
  of the manifest; it returns the empty list and no error when ModTidyHandle
  returns ErrTmpModfileUnsupported. In both functions any other error of
  ModTidyHandle and any error of Tidy is returned as it is, and every error that
  either function returns is one that GetFile, ModTidyHandle or Tidy returned.
\<close>

theorem early_exits:
  "(ModFile snapshot = [] \<longrightarrow> Diagnostics snapshot = Inr Map.empty) \<and>
   (\<forall>err. ModFile snapshot \<noteq> [] \<and> GetFile snapshot (ModFile snapshot) = Inl err \<longrightarrow>
      Diagnostics snapshot = Inl err) \<and>
   (\<forall>fh. ModFile snapshot \<noteq> [] \<and> GetFile snapshot (ModFile snapshot) = Inr fh \<and>
      ModTidyHandle snapshot = Inl ErrTmpModfileUnsupported \<longrightarrow>
      Diagnostics snapshot = Inr Map.empty) \<and>
   (ModTidyHandle snapshot = Inl ErrTmpModfileUnsupported \<longrightarrow>
      SuggestedFixes snapshot diags = Inr []) \<and>
   (\<forall>fh err. ModFile snapshot \<noteq> [] \<and> GetFile snapshot (ModFile snapshot) = Inr fh \<and>
      ModTidyHandle snapshot = Inl err \<and> err \<noteq> ErrTmpModfileUnsupported \<longrightarrow>
      Diagnostics snapshot = Inl err) \<and>
   (\<forall>err. ModTidyHandle snapshot = Inl err \<and> err \<noteq> ErrTmpModfileUnsupported \<longrightarrow>
      SuggestedFixes snapshot diags = Inl err) \<and>
   (\<forall>fh mth err. ModFile snapshot \<noteq> [] \<and> GetFile snapshot (ModFile snapshot) = Inr fh \<and>
      ModTidyHandle snapshot = Inr mth \<and> Tidy mth = Inl err \<longrightarrow>
      Diagnostics snapshot = Inl err) \<and>
   (\<forall>mth err. ModTidyHandle snapshot = Inr mth \<and> Tidy mth = Inl err \<longrightarrow>
      SuggestedFixes snapshot diags = Inl err) \<and>
   (\<forall>err. Diagnostics snapshot = Inl err \<longrightarrow>
      GetFile snapshot (ModFile snapshot) = Inl err \<or>
      ModTidyHandle snapshot = Inl err \<or>
      (\<exists>mth. ModTidyHandle snapshot = Inr mth \<and>
         (Tidy mth = Inl err \<or>
          (\<exists>errs e. Tidy mth = Inr errs \<and> e \<in> set errs \<and>
             GetFile snapshot (e_URI e) = Inl err)))) \<and>
   (\<forall>err. SuggestedFixes snapshot diags = Inl err \<longrightarrow>
      ModTidyHandle snapshot = Inl err \<or>
      (\<exists>mth. ModTidyHandle snapshot = Inr mth \<and>
         (Tidy mth = Inl err \<or>
          (\<exists>errs d e fix touched. Tidy mth = Inr errs \<and>
             (d, e, fix) \<in> set (matchedFixes errs diags) \<and>
             touched \<in> set (fix_Edits fix) \<and>
             GetFile snapshot (fst touched) = Inl err))))"
proof -
  have c1: "ModFile snapshot = [] \<longrightarrow> Diagnostics snapshot = Inr Map.empty"
    by (simp add: Diagnostics_def)
  have c2: "\<forall>err. ModFile snapshot \<noteq> [] \<and> GetFile snapshot (ModFile snapshot) = Inl err \<longrightarrow>
      Diagnostics snapshot = Inl err"
    by (simp add: Diagnostics_def Let_def)
  have c3: "\<forall>fh. ModFile snapshot \<noteq> [] \<and> GetFile snapshot (ModFile snapshot) = Inr fh \<and>
      ModTidyHandle snapshot = Inl ErrTmpModfileUnsupported \<longrightarrow>
      Diagnostics snapshot = Inr Map.empty"
    by (simp add: Diagnostics_def Let_def)
  have c4: "ModTidyHandle snapshot = Inl ErrTmpModfileUnsupported \<longrightarrow>
      SuggestedFixes snapshot diags = Inr []"
    by (simp add: SuggestedFixes_def)
  have c5: "\<forall>fh err. ModFile snapshot \<noteq> [] \<and> GetFile snapshot (ModFile snapshot) = Inr fh \<and>
      ModTidyHandle snapshot = Inl err \<and> err \<noteq> ErrTmpModfileUnsupported \<longrightarrow>
      Diagnostics snapshot = Inl err"
    by (simp add: Diagnostics_def Let_def)
  have c6: "\<forall>err. ModTidyHandle snapshot = Inl err \<and> err \<noteq> ErrTmpModfileUnsupported \<longrightarrow>
      SuggestedFixes snapshot diags = Inl err"
    by (simp add: SuggestedFixes_def)
  have c7: "\<forall>fh mth err. ModFile snapshot \<noteq> [] \<and> GetFile snapshot (ModFile snapshot) = Inr fh \<and>
      ModTidyHandle snapshot = Inr mth \<and> Tidy mth = Inl err \<longrightarrow>
      Diagnostics snapshot = Inl err"
    by (simp add: Diagnostics_def Let_def)
  have c8: "\<forall>mth err. ModTidyHandle snapshot = Inr mth \<and> Tidy mth = Inl err \<longrightarrow>
      SuggestedFixes snapshot diags = Inl err"
    by (simp add: SuggestedFixes_def)
  have c9: "\<forall>err. Diagnostics snapshot = Inl err \<longrightarrow>
      GetFile snapshot (ModFile snapshot) = Inl err \<or>
      ModTidyHandle snapshot = Inl err \<or>
      (\<exists>mth. ModTidyHandle snapshot = Inr mth \<and>
         (Tidy mth = Inl err \<or>
          (\<exists>errs e. Tidy mth = Inr errs \<and> e \<in> set errs \<and>
             GetFile snapshot (e_URI e) = Inl err)))"
    by (auto simp: Diagnostics_def Let_def split: if_splits sum.splits
        dest: Diagnostics_loop_fails)
  have c10: "\<forall>err. SuggestedFixes snapshot diags = Inl err \<longrightarrow>
      ModTidyHandle snapshot = Inl err \<or>
      (\<exists>mth. ModTidyHandle snapshot = Inr mth \<and>
         (Tidy mth = Inl err \<or>
          (\<exists>errs d e fix touched. Tidy mth = Inr errs \<and>
             (d, e, fix) \<in> set (matchedFixes errs diags) \<and>
             touched \<in> set (fix_Edits fix) \<and>
             GetFile snapshot (fst touched) = Inl err)))"
  proof (intro allI impI)
    fix err
    assume failed: "SuggestedFixes snapshot diags = Inl err"
    show "ModTidyHandle snapshot = Inl err \<or>
      (\<exists>mth. ModTidyHandle snapshot = Inr mth \<and>
         (Tidy mth = Inl err \<or>
          (\<exists>errs d e fix touched. Tidy mth = Inr errs \<and>
             (d, e, fix) \<in> set (matchedFixes errs diags) \<and>
             touched \<in> set (fix_Edits fix) \<and>
             GetFile snapshot (fst touched) = Inl err)))"
    proof (cases "ModTidyHandle snapshot")
      case (Inl err')
      with failed show ?thesis
        by (simp add: SuggestedFixes_def split: if_splits)
    next
      case mth: (Inr mth)
      show ?thesis
      proof (cases "Tidy mth")
        case (Inl err')
        with failed mth show ?thesis
          by (simp add: SuggestedFixes_def)
      next
        case (Inr errs)
        with failed mth have
          "diags_loop snapshot (errorsMap_loop errs Map.empty) diags [] = Inl err"
          by (simp add: SuggestedFixes_def)
        from diags_loop_Inl [OF this] mth Inr show ?thesis
          by blast
      qed
    qed
  qed
  from c1 c2 c3 c4 c5 c6 c7 c8 c9 c10 show ?thesis
    by (intro conjI)
qed

theorem early_exits_witness:
  "ModFile (noManifestSnapshot) = [] \<and>
   Diagnostics noManifestSnapshot = Inr Map.empty \<and>
   ModTidyHandle (unsupportedSnapshot ''go.mod'') = Inl ErrTmpModfileUnsupported \<and>
   ModFile (unsupportedSnapshot ''go.mod'') \<noteq> [] \<and>
   GetFile (unsupportedSnapshot ''go.mod'') (ModFile (unsupportedSnapshot ''go.mod'')) =
     Inr (exampleFile ''go.mod'') \<and>
   Diagnostics (unsupportedSnapshot ''go.mod'') = Inr Map.empty \<and>
   SuggestedFixes (unsupportedSnapshot ''go.mod'') [presented errUnused] = Inr [] \<and>
   GetFile (unsupportedSnapshot ''gone.mod'') (ModFile (unsupportedSnapshot ''gone.mod'')) =
     Inl (CollaboratorError ''no such file'') \<and>
   Diagnostics (unsupportedSnapshot ''gone.mod'') = Inl (CollaboratorError ''no such file'')"
proof -
  have h1: "ModFile noManifestSnapshot = []"
    by (simp add: noManifestSnapshot_def)
  have h2: "ModTidyHandle (unsupportedSnapshot ''go.mod'') = Inl ErrTmpModfileUnsupported"
    by (simp add: unsupportedSnapshot_def)
  have h3: "ModFile (unsupportedSnapshot ''go.mod'') \<noteq> []"
    by (simp add: unsupportedSnapshot_def)
  have h4: "GetFile (unsupportedSnapshot ''go.mod'') (ModFile (unsupportedSnapshot ''go.mod'')) =
     Inr (exampleFile ''go.mod'')"
    by (simp add: unsupportedSnapshot_def exampleGetFile_def)
  have h5: "ModFile (unsupportedSnapshot ''gone.mod'') \<noteq> []"
    by (simp add: unsupportedSnapshot_def)
  have h6: "GetFile (unsupportedSnapshot ''gone.mod'') (ModFile (unsupportedSnapshot ''gone.mod'')) =
     Inl (CollaboratorError ''no such file'')"
    by (simp add: unsupportedSnapshot_def exampleGetFile_def)
  from h1 early_exits [of noManifestSnapshot]
  have r1: "Diagnostics noManifestSnapshot = Inr Map.empty"
    by blast
  from h2 h3 h4 early_exits [of "unsupportedSnapshot ''go.mod''" "[presented errUnused]"]
  have r2: "Diagnostics (unsupportedSnapshot ''go.mod'') = Inr Map.empty" and
    r3: "SuggestedFixes (unsupportedSnapshot ''go.mod'') [presented errUnused] = Inr []"
    by blast+
  from h5 h6 early_exits [of "unsupportedSnapshot ''gone.mod''"]
  have r4: "Diagnostics (unsupportedSnapshot ''gone.mod'') =
      Inl (CollaboratorError ''no such file'')"
    by blast
  from h1 h2 h3 h4 h6 r1 r2 r3 r4 show ?thesis
    by (intro conjI)
qed

section \<open>Properties of ExtractGoCommandError\<close>



lemma splitAtLast_None: "splitAtLast s = None \<longleftrightarrow> CHR ''@'' \<notin> set s"
  by (induction s) (auto split: option.splits)

lemma splitAtLast_Some:
  "splitAtLast s = Some (m, v) \<longleftrightarrow> s = m @ CHR ''@'' # v \<and> CHR ''@'' \<notin> set v"
proof (induction s arbitrary: m v)
  case Nil
  then show ?case by simp
next
  case (Cons c cs)
  show ?case
  proof (cases "splitAtLast cs")
    case None
    then have no: "CHR ''@'' \<notin> set cs"
      by (simp add: splitAtLast_None)
    have "c # cs = m @ CHR ''@'' # v \<and> CHR ''@'' \<notin> set v \<longleftrightarrow> c = CHR ''@'' \<and> m = [] \<and> v = cs"
      using no by (cases m) auto
    with None show ?thesis
      by auto
  next
    case (Some mv)
    obtain m' v' where mv: "mv = (m', v')"
      by (cases mv)
    with Some Cons.IH [of m' v'] have cs: "cs = m' @ CHR ''@'' # v'" and v': "CHR ''@'' \<notin> set v'"
      by simp_all
    have "c # cs = m @ CHR ''@'' # v \<and> CHR ''@'' \<notin> set v \<longleftrightarrow> m = c # m' \<and> v = v'"
    proof
      assume a: "c # cs = m @ CHR ''@'' # v \<and> CHR ''@'' \<notin> set v"
      show "m = c # m' \<and> v = v'"
      proof (cases m)
        case Nil
        with a have "cs = v" by simp
        with a cs show ?thesis by simp
      next
        case (Cons c' m'')
        with a have "cs = m'' @ CHR ''@'' # v" and "c' = c" and "CHR ''@'' \<notin> set v"
          by simp_all
        with Cons.IH [of m'' v] Some mv Cons show ?thesis
          by simp
      qed
    next
      assume "m = c # m' \<and> v = v'"
      with cs v' show "c # cs = m @ CHR ''@'' # v \<and> CHR ''@'' \<notin> set v"
        by simp
    qed
    with Some mv show ?thesis
      by auto
  qed
qed

lemma splitAtLast_snoc:
  "splitAtLast (s @ [c]) =
     (if c = CHR ''@'' then Some (s, [])
      else map_option (\<lambda>(m, v). (m, v @ [c])) (splitAtLast s))"
  by (induction s) (auto split: option.splits)

lemma backtrack_take:
  "n < length t \<Longrightarrow>
   backtrack t n =
     map_option (\<lambda>(m, v). (m, takeWhile dot (drop (Suc (length m)) t)))
       (splitAtLast (take (Suc n) t))"
proof (induction n)
  case 0
  then obtain c cs where "t = c # cs"
    by (cases t) auto
  then show ?case
    by (simp add: groupsAt_def)
next
  case (Suc n)
  then have take: "take (Suc (Suc n)) t = take (Suc n) t @ [t ! Suc n]"
    by (simp add: take_Suc_conv_app_nth)
  show ?case
  proof (cases "t ! Suc n = CHR ''@''")
    case True
    with Suc.prems show ?thesis
      by (simp add: take splitAtLast_snoc groupsAt_def del: take_Suc_Cons)
  next
    case False
    with Suc show ?thesis
      by (simp add: take splitAtLast_snoc groupsAt_def option.map_comp comp_def
          split_def del: take_Suc_Cons)
  qed
qed

lemma takeWhile_dot_rest:
  assumes "splitAtLast l = Some (m, v)" and "\<forall>c\<in>set l. dot c"
    and "r = [] \<or> \<not> dot (hd r)"
  shows "takeWhile dot (drop (Suc (length m)) (l @ r)) = v"
proof -
  from assms(1) have l: "l = m @ CHR ''@'' # v"
    by (simp add: splitAtLast_Some)
  with assms(2) have v: "\<forall>c\<in>set v. dot c"
    by simp
  from l have "drop (Suc (length m)) (l @ r) = v @ r"
    by simp
  moreover from assms(3) have "takeWhile dot r = []"
    by (cases r) auto
  ultimately show ?thesis
    using v by (simp add: takeWhile_append2)
qed

lemma matchHere_eq: "matchHere t = splitAtLast (takeWhile dot t)"
proof -
  let ?l = "takeWhile dot t"
  let ?r = "dropWhile dot t"
  have t: "t = ?l @ ?r"
    by simp
  have dots: "\<forall>c\<in>set ?l. dot c"
    by (auto dest: set_takeWhileD)
  have stop: "?r = [] \<or> \<not> dot (hd ?r)"
    by (metis hd_dropWhile)
  have second: "takeWhile dot (drop (Suc (length m)) t) = v"
    if "splitAtLast ?l = Some (m, v)" for m v
    using takeWhile_dot_rest [OF that dots stop] by simp
  have fixed: "map_option (\<lambda>(m, v). (m, takeWhile dot (drop (Suc (length m)) t)))
      (splitAtLast ?l) = splitAtLast ?l"
  proof (cases "splitAtLast ?l")
    case None
    then show ?thesis by simp
  next
    case (Some mv)
    then show ?thesis
      using second [of "fst mv" "snd mv"] by (cases mv) simp
  qed
  show ?thesis
  proof (cases "length ?l < length t")
    case True
    then have "?r \<noteq> []"
      by (metis t append_Nil2 less_irrefl)
    with stop have nl: "\<not> dot (t ! length ?l)"
      by (metis hd_dropWhile nth_length_takeWhile True)
    then have no_at: "t ! length ?l \<noteq> CHR ''@''"
      by (auto simp: dot_def)
    from True have "take (Suc (length ?l)) t = take (length ?l) t @ [t ! length ?l]"
      by (simp add: take_Suc_conv_app_nth)
    moreover have "take (length ?l) t = ?l"
      by (metis t append_eq_conv_conj)
    ultimately have "splitAtLast (take (Suc (length ?l)) t) =
        map_option (\<lambda>(m, v). (m, v @ [t ! length ?l])) (splitAtLast ?l)"
      using no_at by (simp add: splitAtLast_snoc)
    then have "backtrack t (length ?l) =
        map_option (\<lambda>(m, v). (m, takeWhile dot (drop (Suc (length m)) t))) (splitAtLast ?l)"
      using backtrack_take [OF True]
      by (simp add: option.map_comp comp_def split_def)
    with fixed show ?thesis
      by (simp add: matchHere_def)
  next
    case False
    then have whole: "?l = t"
      by (metis t append_eq_conv_conj length_takeWhile_le not_less take_all_iff le_antisym)
    show ?thesis
    proof (cases t)
      case Nil
      then show ?thesis
        by (simp add: matchHere_def groupsAt_def)
    next
      case (Cons c cs)
      then have len: "length t = Suc (length cs)"
        by simp
      from fixed have fixed': "map_option
          (\<lambda>(m, v). (m, takeWhile dot (drop (Suc (length m)) t))) (splitAtLast t) =
          splitAtLast t"
        unfolding whole .
      have "backtrack t (length t) = backtrack t (length cs)"
        using len by (simp add: groupsAt_def)
      also have "\<dots> = map_option (\<lambda>(m, v). (m, takeWhile dot (drop (Suc (length m)) t)))
          (splitAtLast (take (Suc (length cs)) t))"
        using len by (intro backtrack_take) simp
      also have "take (Suc (length cs)) t = t"
        using len by simp
      finally have "backtrack t (length t) = splitAtLast t"
        using fixed' by simp
      then show ?thesis
        unfolding matchHere_def whole .
    qed
  qed
qed

lemma Split_head: "\<exists>rest. Split s sep = takeWhile (\<lambda>c. c \<noteq> sep) s # rest"
  by (induction s) (auto split: list.splits)

lemma Split_no_separator: "sep \<notin> set s \<Longrightarrow> Split s sep = [s]"
  by (induction s) auto

lemma Split_pieces: "\<forall>piece\<in>set (Split s sep). set piece \<subseteq> set s"
proof (induction s)
  case Nil
  then show ?case by simp
next
  case (Cons c cs)
  obtain p ps where split: "Split cs sep = p # ps"
    using Split_head [of cs sep] by blast
  with Cons.IH have p: "set p \<subseteq> set cs" and ps: "\<forall>q\<in>set ps. set q \<subseteq> set cs"
    by simp_all
  show ?case
  proof (cases "c = sep")
    case True
    with Cons.IH show ?thesis
      by auto
  next
    case False
    with split have "Split (c # cs) sep = (c # p) # ps"
      by simp
    with p ps show ?thesis
      by auto
  qed
qed

lemma dot_eq: "dot = (\<lambda>c. c \<noteq> CHR 0x0A)"
  by (simp add: dot_def fun_eq_iff)

lemma FindStringSubmatch_lines:
  "FindStringSubmatch s =
     (case find (\<lambda>l. CHR ''@'' \<in> set l) (Split s (CHR 0x0A)) of
        None \<Rightarrow> None
      | Some l \<Rightarrow> splitAtLast l)"
proof (induction s)
  case Nil
  then show ?case
    by (simp add: matchHere_eq)
next
  case (Cons c cs)
  obtain rest where rest: "Split cs (CHR 0x0A) = takeWhile dot cs # rest"
    using Split_head [of cs "CHR 0x0A"] by (auto simp: dot_eq)
  show ?case
  proof (cases "c = CHR 0x0A")
    case True
    then have "matchHere (c # cs) = None"
      by (simp add: matchHere_eq dot_def)
    with True Cons.IH show ?thesis
      by simp
  next
    case nl: False
    then have line: "takeWhile dot (c # cs) = c # takeWhile dot cs"
      by (simp add: dot_def)
    from nl rest have lines: "Split (c # cs) (CHR 0x0A) = (c # takeWhile dot cs) # rest"
      by simp
    show ?thesis
    proof (cases "CHR ''@'' \<in> set (c # takeWhile dot cs)")
      case True
      then obtain groups where "splitAtLast (c # takeWhile dot cs) = Some groups"
        using splitAtLast_None [of "c # takeWhile dot cs"] by (metis not_Some_eq)
      with True show ?thesis
        unfolding lines FindStringSubmatch.simps matchHere_eq line by simp
    next
      case no: False
      then have "matchHere (c # cs) = None"
        unfolding matchHere_eq line by (simp only: splitAtLast_None not_False_eq_True)
      moreover from no have "CHR ''@'' \<notin> set (takeWhile dot cs)"
        by simp
      ultimately show ?thesis
        using no Cons.IH unfolding lines rest by simp
    qed
  qed
qed

lemma FindStringSubmatch_one_line:
  "CHR 0x0A \<notin> set s \<Longrightarrow> FindStringSubmatch s = splitAtLast s"
proof (cases "CHR ''@'' \<in> set s")
  case True
  moreover assume "CHR 0x0A \<notin> set s"
  ultimately show ?thesis
    by (simp add: FindStringSubmatch_lines Split_no_separator)
next
  case False
  then have "splitAtLast s = None"
    by (simp add: splitAtLast_None)
  moreover assume "CHR 0x0A \<notin> set s"
  ultimately show ?thesis
    using False by (simp add: FindStringSubmatch_lines Split_no_separator)
qed

lemma FindStringSubmatch_no_at:
  assumes "CHR ''@'' \<notin> set s"
  shows "FindStringSubmatch s = None"
proof -
  have "find (\<lambda>l. CHR ''@'' \<in> set l) (Split s (CHR 0x0A)) = None"
    using assms Split_pieces [of s "CHR 0x0A"] by (auto simp: find_None_iff)
  then show ?thesis
    by (simp add: FindStringSubmatch_lines)
qed

lemma segments_loop_first_valid:
  "find (\<lambda>(path, version). Check path version)
     (List.map_filter (\<lambda>s. FindStringSubmatch (TrimSpace s)) ss) = Some (m, v) \<Longrightarrow>
   segments_loop Check ss v0 = \<lparr>Path = m, Version = v\<rparr>"
proof (induction ss arbitrary: v0)
  case Nil
  then show ?case by (simp add: List.map_filter_simps)
next
  case (Cons s ss)
  show ?case
  proof (cases "FindStringSubmatch (TrimSpace s)")
    case None
    with Cons show ?thesis
      by (simp add: List.map_filter_simps)
  next
    case (Some groups)
    obtain a b where groups: "groups = (a, b)"
      by (cases groups)
    show ?thesis
    proof (cases "Check a b")
      case True
      with Cons.prems Some groups show ?thesis
        by (simp add: List.map_filter_simps)
    next
      case False
      with Cons.prems Some groups have
        "find (\<lambda>(path, version). Check path version)
           (List.map_filter (\<lambda>s. FindStringSubmatch (TrimSpace s)) ss) = Some (m, v)"
        by (simp add: List.map_filter_simps)
      from Cons.IH [OF this] False Some groups show ?thesis
        by simp
    qed
  qed
qed

lemma segments_loop_no_candidate:
  "List.map_filter (\<lambda>s. FindStringSubmatch (TrimSpace s)) ss = [] \<Longrightarrow>
   segments_loop Check ss v0 = v0"
proof (induction ss)
  case Nil
  then show ?case by simp
next
  case (Cons s ss)
  then show ?case
    by (cases "FindStringSubmatch (TrimSpace s)") (simp_all add: List.map_filter_simps)
qed

lemma exampleCandidates:
  "candidates exampleError =
     [(''example.com'', ''v1.2.2''), (''reading example.com/'', ''v/v1.2.2.mod'')]"
  unfolding exampleError_def by code_simp

text \<open>
  Claim C2 says that each segment is split at its last \<open>@\<close>. The pattern cannot
  cross a line feed: in a segment of several lines it matches inside the first
  line that holds an \<open>@\<close>. The text twoLineError is one segment of two lines. The
  code takes example.com at v1.2.2 from its first line, a valid candidate, and
  stops. Split at its last \<open>@\<close> the segment gives a module text of two lines and
  the version bar; that candidate is not valid, and the token would be the zero
  value.
\<close>

theorem extractVersion_counterexample:
  "extractVersion exampleCheck twoLineError = \<lparr>Path = ''example.com'', Version = ''v1.2.2''\<rparr> \<and>
   FindStringSubmatch (TrimSpace twoLineError) = Some (''example.com'', ''v1.2.2'') \<and>
   splitAtLast (TrimSpace twoLineError) =
     Some (''example.com@v1.2.2'' @ [CHR 0x0A] @ ''foo'', ''bar'') \<and>
   claimedVersion exampleCheck twoLineError = \<lparr>Path = [], Version = []\<rparr>"
  unfolding twoLineError_def by code_simp

text \<open>
  Claim C2, amended. The error text is split at every colon and each piece is
  trimmed. The pattern matches a piece in the first of its lines that holds an
  \<open>@\<close>, and splits that line at its last \<open>@\<close>: the module text is the line up to
  there, the version text the rest of the line. For a piece of one line this is
  the split of the piece at its last \<open>@\<close>. The candidates are tried in the order
  of the pieces; the first one that module.Check accepts is the token, whatever
  the later pieces hold. When no piece holds an \<open>@\<close> the token is the zero
  value. When module.Check accepts example.com at v1.2.2, the text exampleError
  gives that token.
\<close>

theorem extractVersion_first_valid:
  "(\<forall>s. FindStringSubmatch s =
      (case find (\<lambda>l. CHR ''@'' \<in> set l) (Split s (CHR 0x0A)) of
         None \<Rightarrow> None
       | Some l \<Rightarrow> splitAtLast l)) \<and>
   (\<forall>s m v. CHR 0x0A \<notin> set s \<longrightarrow>
      (FindStringSubmatch s = Some (m, v) \<longleftrightarrow> s = m @ CHR ''@'' # v \<and> CHR ''@'' \<notin> set v)) \<and>
   (\<forall>m v. find (\<lambda>(path, version). Check path version) (candidates loadErr) = Some (m, v) \<longrightarrow>
      extractVersion Check loadErr = \<lparr>Path = m, Version = v\<rparr>) \<and>
   ((\<forall>s\<in>set (Split loadErr CHR '':''). CHR ''@'' \<notin> set (TrimSpace s)) \<longrightarrow>
      extractVersion Check loadErr = \<lparr>Path = [], Version = []\<rparr>) \<and>
   (Check ''example.com'' ''v1.2.2'' \<longrightarrow>
      extractVersion Check exampleError = \<lparr>Path = ''example.com'', Version = ''v1.2.2''\<rparr>)"
proof -
  have lines: "\<forall>s. FindStringSubmatch s =
      (case find (\<lambda>l. CHR ''@'' \<in> set l) (Split s (CHR 0x0A)) of
         None \<Rightarrow> None
       | Some l \<Rightarrow> splitAtLast l)"
    using FindStringSubmatch_lines by blast
  have one_line: "\<forall>s m v. CHR 0x0A \<notin> set s \<longrightarrow>
      (FindStringSubmatch s = Some (m, v) \<longleftrightarrow> s = m @ CHR ''@'' # v \<and> CHR ''@'' \<notin> set v)"
    by (simp add: FindStringSubmatch_one_line splitAtLast_Some)
  have first: "extractVersion Check err = \<lparr>Path = m, Version = v\<rparr>"
    if "find (\<lambda>(path, version). Check path version) (candidates err) = Some (m, v)"
    for err m v
    using that unfolding candidates_def extractVersion_def
    by (rule segments_loop_first_valid)
  have none: "extractVersion Check loadErr = \<lparr>Path = [], Version = []\<rparr>"
    if "\<forall>s\<in>set (Split loadErr CHR '':''). CHR ''@'' \<notin> set (TrimSpace s)"
  proof -
    from that have "List.map_filter (\<lambda>s. FindStringSubmatch (TrimSpace s))
        (Split loadErr CHR '':'') = []"
      by (simp add: List.map_filter_def filter_empty_conv FindStringSubmatch_no_at)
    then show ?thesis
      unfolding extractVersion_def by (rule segments_loop_no_candidate)
  qed
  have example: "extractVersion Check exampleError =
      \<lparr>Path = ''example.com'', Version = ''v1.2.2''\<rparr>"
    if "Check ''example.com'' ''v1.2.2''"
    using that by (intro first) (simp add: exampleCandidates)
  from lines one_line first none example show ?thesis
    by blast
qed

theorem extractVersion_first_valid_witness:
  "exampleCheck ''example.com'' ''v1.2.2'' \<and>
   find (\<lambda>(path, version). exampleCheck path version) (candidates exampleError) =
     Some (''example.com'', ''v1.2.2'') \<and>
   extractVersion exampleCheck exampleError = \<lparr>Path = ''example.com'', Version = ''v1.2.2''\<rparr> \<and>
   CHR 0x0A \<notin> set ''example.com@v1.2.2'' \<and>
   FindStringSubmatch ''example.com@v1.2.2'' = Some (''example.com'', ''v1.2.2'') \<and>
   extractVersion exampleCheck ''exit status 1'' = \<lparr>Path = [], Version = []\<rparr>"
proof -
  have h1: "exampleCheck ''example.com'' ''v1.2.2''"
    by (simp add: exampleCheck_def)
  have h2: "find (\<lambda>(path, version). exampleCheck path version) (candidates exampleError) =
     Some (''example.com'', ''v1.2.2'')"
    by (simp add: exampleCandidates exampleCheck_def)
  have h3: "CHR 0x0A \<notin> set ''example.com@v1.2.2''"
    by simp
  have h4: "\<forall>s\<in>set (Split ''exit status 1'' CHR '':''). CHR ''@'' \<notin> set (TrimSpace s)"
    by code_simp
  from h1 extractVersion_first_valid [of exampleCheck exampleError]
  have r1: "extractVersion exampleCheck exampleError =
      \<lparr>Path = ''example.com'', Version = ''v1.2.2''\<rparr>"
    by blast
  from h3 extractVersion_first_valid [of exampleCheck exampleError]
  have r2: "FindStringSubmatch ''example.com@v1.2.2'' = Some (''example.com'', ''v1.2.2'')"
    by simp
  from h4 extractVersion_first_valid [of exampleCheck "''exit status 1''"]
  have r3: "extractVersion exampleCheck ''exit status 1'' = \<lparr>Path = [], Version = []\<rparr>"
    by blast
  from h1 h2 h3 r1 r2 r3 show ?thesis
    by (intro conjI)
qed

lemma Require_loop_find:
  "Require_loop toDiag v reqs =
     map_option (\<lambda>req. toDiag (req_Syntax req)) (find (\<lambda>req. req_Mod req = v) reqs)"
  by (induction reqs) auto

lemma Exclude_loop_find:
  "Exclude_loop toDiag v exs =
     map_option (\<lambda>ex. toDiag (ex_Syntax ex)) (find (\<lambda>ex. ex_Mod ex = v) exs)"
  by (induction exs) auto

lemma Replace_loop_find:
  "Replace_loop toDiag v reps =
     map_option (\<lambda>rep. toDiag (rep_Syntax rep))
       (find (\<lambda>rep. rep_New rep = v \<or> rep_Old rep = v) reps)"
  by (induction reps) auto

text \<open>
  Claim C3. When the manifest parses, ExtractGoCommandError returns what
  toDiagnostic gives for the first require statement whose module is the
  extracted token; without one, for the first such exclude statement; without
  one, for the first replace statement whose new or old module is the token;
  and without any the error "no diagnostics for" followed by the error text.
  toDiagnostic sends the byte offsets of the start and the end of the statement
  through the position mapper, and with the range that comes back returns a
  diagnostic with Severity Error, the error text itself as Message, and that
  range. When a require and a replace statement both name the token, the
  diagnostic is the one of a require statement.
\<close>

theorem ExtractGoCommandError_search:
  assumes "ParseModHandle snapshot fh = Inr pmh" and "Parse pmh = Inr (parsed, m)"
  shows "ExtractGoCommandError Check snapshot fh loadErr =
           (case find (\<lambda>req. req_Mod req = extractVersion Check loadErr) (Require parsed) of
              Some req \<Rightarrow> toDiagnostic fh m loadErr (req_Syntax req)
            | None \<Rightarrow>
               (case find (\<lambda>ex. ex_Mod ex = extractVersion Check loadErr) (Exclude parsed) of
                  Some ex \<Rightarrow> toDiagnostic fh m loadErr (ex_Syntax ex)
                | None \<Rightarrow>
                   (case find (\<lambda>rep. rep_New rep = extractVersion Check loadErr \<or>
                                    rep_Old rep = extractVersion Check loadErr)
                           (Replace parsed) of
                      Some rep \<Rightarrow> toDiagnostic fh m loadErr (rep_Syntax rep)
                    | None \<Rightarrow> Inl (Errorf (''no diagnostics for '' @ loadErr))))) \<and>
         (\<forall>line l1 c1 l2 c2 rng.
            ToPosition m (Byte (line_Start line)) = Inr (l1, c1) \<and>
            ToPosition m (Byte (line_End line)) = Inr (l2, c2) \<and>
            MapperRange m
              \<lparr>sp_URI = fh_URI fh,
               sp_Start = \<lparr>pt_Line = l1, pt_Column = c1, pt_Offset = Byte (line_Start line)\<rparr>,
               sp_End = \<lparr>pt_Line = l2, pt_Column = c2, pt_Offset = Byte (line_End line)\<rparr>\<rparr>
              = Inr rng \<longrightarrow>
            toDiagnostic fh m loadErr line =
              Inr \<lparr>sd_Message = loadErr, sd_Range = rng,
                   sd_Severity = SeverityError, sd_Source = []\<rparr>) \<and>
         (\<forall>req rep.
            req \<in> set (Require parsed) \<and> req_Mod req = extractVersion Check loadErr \<and>
            rep \<in> set (Replace parsed) \<and>
            (rep_New rep = extractVersion Check loadErr \<or>
             rep_Old rep = extractVersion Check loadErr) \<longrightarrow>
            (\<exists>req'\<in>set (Require parsed). req_Mod req' = extractVersion Check loadErr \<and>
               ExtractGoCommandError Check snapshot fh loadErr =
                 toDiagnostic fh m loadErr (req_Syntax req')))"
proof -
  let ?v = "extractVersion Check loadErr"
  have order: "ExtractGoCommandError Check snapshot fh loadErr =
           (case find (\<lambda>req. req_Mod req = ?v) (Require parsed) of
              Some req \<Rightarrow> toDiagnostic fh m loadErr (req_Syntax req)
            | None \<Rightarrow>
               (case find (\<lambda>ex. ex_Mod ex = ?v) (Exclude parsed) of
                  Some ex \<Rightarrow> toDiagnostic fh m loadErr (ex_Syntax ex)
                | None \<Rightarrow>
                   (case find (\<lambda>rep. rep_New rep = ?v \<or> rep_Old rep = ?v) (Replace parsed) of
                      Some rep \<Rightarrow> toDiagnostic fh m loadErr (rep_Syntax rep)
                    | None \<Rightarrow> Inl (Errorf (''no diagnostics for '' @ loadErr)))))"
    using assms
    by (simp add: ExtractGoCommandError_def Let_def Require_loop_find Exclude_loop_find
        Replace_loop_find split: option.splits)
  have convert: "toDiagnostic fh m loadErr line =
      Inr \<lparr>sd_Message = loadErr, sd_Range = rng, sd_Severity = SeverityError, sd_Source = []\<rparr>"
    if "ToPosition m (Byte (line_Start line)) = Inr (l1, c1)" and
      "ToPosition m (Byte (line_End line)) = Inr (l2, c2)" and
      "MapperRange m
         \<lparr>sp_URI = fh_URI fh,
          sp_Start = \<lparr>pt_Line = l1, pt_Column = c1, pt_Offset = Byte (line_Start line)\<rparr>,
          sp_End = \<lparr>pt_Line = l2, pt_Column = c2, pt_Offset = Byte (line_End line)\<rparr>\<rparr>
         = Inr rng"
    for line l1 c1 l2 c2 rng
    using that
    by (simp add: toDiagnostic_def rangeFromPositions_def toPoint_def NewPoint_def New_def)
  have require_first: "\<exists>req'\<in>set (Require parsed). req_Mod req' = ?v \<and>
      ExtractGoCommandError Check snapshot fh loadErr =
        toDiagnostic fh m loadErr (req_Syntax req')"
    if "req \<in> set (Require parsed)" and "req_Mod req = ?v" for req
  proof -
    from that obtain req' where found: "find (\<lambda>req. req_Mod req = ?v) (Require parsed) = Some req'"
      by (cases "find (\<lambda>req. req_Mod req = ?v) (Require parsed)") (auto simp: find_None_iff)
    then have "req' \<in> set (Require parsed)" and "req_Mod req' = ?v"
      by (auto simp: find_Some_iff)
    with found order show ?thesis
      by auto
  qed
  from order convert require_first show ?thesis
    by blast
qed

lemmas locate_defs =
  ExtractGoCommandError_def Let_def toDiagnostic_def rangeFromPositions_def toPoint_def
  NewPoint_def New_def parsedSnapshot_def exampleParsed_def exampleMapper_def
  exampleLine_def exampleFile_def

lemma exampleToken:
  "extractVersion exampleCheck exampleError = \<lparr>Path = ''example.com'', Version = ''v1.2.2''\<rparr>"
  unfolding exampleError_def by code_simp

lemma invalidToken:
  "extractVersion exampleCheck invalidPathError = \<lparr>Path = ''foo'', Version = ''v1.0.0''\<rparr>"
  unfolding invalidPathError_def by code_simp

theorem ExtractGoCommandError_search_witness:
  "ParseModHandle parsedSnapshot (exampleFile ''go.mod'') =
     Inr \<lparr>Parse = Inr (exampleParsed, exampleMapper)\<rparr> \<and>
   Parse \<lparr>Parse = Inr (exampleParsed, exampleMapper)\<rparr> = Inr (exampleParsed, exampleMapper) \<and>
   extractVersion exampleCheck exampleError = \<lparr>Path = ''example.com'', Version = ''v1.2.2''\<rparr> \<and>
   rep_Old (hd (Replace exampleParsed)) = extractVersion exampleCheck exampleError \<and>
   ExtractGoCommandError exampleCheck parsedSnapshot (exampleFile ''go.mod'') exampleError =
     Inr \<lparr>sd_Message = exampleError,
          sd_Range = \<lparr>Start = \<lparr>Line = 1, Character = 0\<rparr>, End = \<lparr>Line = 1, Character = 26\<rparr>\<rparr>,
          sd_Severity = SeverityError, sd_Source = []\<rparr>"
proof -
  let ?fh = "exampleFile ''go.mod''"
  have h1: "ParseModHandle parsedSnapshot ?fh =
      Inr \<lparr>Parse = Inr (exampleParsed, exampleMapper)\<rparr>"
    by (simp add: parsedSnapshot_def)
  have h2: "Parse \<lparr>Parse = Inr (exampleParsed, exampleMapper)\<rparr> =
      Inr (exampleParsed, exampleMapper)"
    by simp
  have old: "rep_Old (hd (Replace exampleParsed)) = extractVersion exampleCheck exampleError"
    by (simp add: exampleToken exampleParsed_def)
  from ExtractGoCommandError_search [OF h1 h2, of exampleCheck exampleError]
  have "ExtractGoCommandError exampleCheck parsedSnapshot ?fh exampleError =
      (case find (\<lambda>req. req_Mod req = extractVersion exampleCheck exampleError)
              (Require exampleParsed) of
         Some req \<Rightarrow> toDiagnostic ?fh exampleMapper exampleError (req_Syntax req)
       | None \<Rightarrow>
          (case find (\<lambda>ex. ex_Mod ex = extractVersion exampleCheck exampleError)
                  (Exclude exampleParsed) of
             Some ex \<Rightarrow> toDiagnostic ?fh exampleMapper exampleError (ex_Syntax ex)
           | None \<Rightarrow>
              (case find (\<lambda>rep. rep_New rep = extractVersion exampleCheck exampleError \<or>
                               rep_Old rep = extractVersion exampleCheck exampleError)
                      (Replace exampleParsed) of
                 Some rep \<Rightarrow> toDiagnostic ?fh exampleMapper exampleError (rep_Syntax rep)
               | None \<Rightarrow> Inl (Errorf (''no diagnostics for '' @ exampleError)))))"
    by blast
  then have "ExtractGoCommandError exampleCheck parsedSnapshot ?fh exampleError =
     Inr \<lparr>sd_Message = exampleError,
          sd_Range = \<lparr>Start = \<lparr>Line = 1, Character = 0\<rparr>, End = \<lparr>Line = 1, Character = 26\<rparr>\<rparr>,
          sd_Severity = SeverityError, sd_Source = []\<rparr>"
    by (simp add: exampleToken exampleParsed_def toDiagnostic_def rangeFromPositions_def
        toPoint_def NewPoint_def New_def exampleMapper_def exampleLine_def exampleFile_def)
  with h1 h2 old exampleToken show ?thesis
    by (intro conjI)
qed

lemma toDiagnostic_Source:
  "toDiagnostic fh m loadErr line = Inr d \<Longrightarrow>
     sd_Source d = [] \<and> sd_Severity d = SeverityError \<and> sd_Message d = loadErr"
  by (auto simp: toDiagnostic_def split: sum.splits)

text \<open>
  Claim C10. A diagnostic that ExtractGoCommandError returns has the empty
  Source. A diagnostic with that Source is not the same diagnostic, in the sense
  of sameDiagnostic, as any error of the analysis with a Category that is not
  empty, and it differs from the diagnostic that Diagnostics builds for such an
  error.
\<close>

theorem ExtractGoCommandError_Source:
  assumes "ExtractGoCommandError Check snapshot fh loadErr = Inr d"
  shows "sd_Source d = [] \<and>
         (\<forall>pd e. pd_Source pd = sd_Source d \<and> e_Category e \<noteq> [] \<longrightarrow>
            \<not> sameDiagnostic pd e) \<and>
         (\<forall>e. e_Category e \<noteq> [] \<longrightarrow> d \<noteq> errorDiagnostic e)"
proof -
  from assms obtain m line where "toDiagnostic fh m loadErr line = Inr d"
    by (auto simp: ExtractGoCommandError_def Let_def Require_loop_find Exclude_loop_find
        Replace_loop_find split: sum.splits option.splits prod.splits)
  then have source: "sd_Source d = []"
    by (simp add: toDiagnostic_Source)
  moreover have "\<not> sameDiagnostic pd e"
    if "pd_Source pd = sd_Source d" and "e_Category e \<noteq> []" for pd e
    using that source by (simp add: sameDiagnostic_def)
  moreover have "d \<noteq> errorDiagnostic e" if "e_Category e \<noteq> []" for e
  proof
    assume "d = errorDiagnostic e"
    then have "sd_Source d = e_Category e"
      by (simp add: errorDiagnostic_def Let_def)
    with source that show False
      by simp
  qed
  ultimately show ?thesis
    by blast
qed

theorem ExtractGoCommandError_Source_witness:
  "ExtractGoCommandError exampleCheck parsedSnapshot (exampleFile ''go.mod'') exampleError =
     Inr \<lparr>sd_Message = exampleError,
          sd_Range = \<lparr>Start = \<lparr>Line = 1, Character = 0\<rparr>, End = \<lparr>Line = 1, Character = 26\<rparr>\<rparr>,
          sd_Severity = SeverityError, sd_Source = []\<rparr> \<and>
   e_Category errUnused \<noteq> [] \<and>
   pd_Source ((presented errUnused)\<lparr>pd_Source := []\<rparr>) = [] \<and>
   \<not> sameDiagnostic ((presented errUnused)\<lparr>pd_Source := []\<rparr>) errUnused"
proof -
  let ?d = "\<lparr>sd_Message = exampleError,
          sd_Range = \<lparr>Start = \<lparr>Line = 1, Character = 0\<rparr>, End = \<lparr>Line = 1, Character = 26\<rparr>\<rparr>,
          sd_Severity = SeverityError, sd_Source = []\<rparr>"
  have h: "ExtractGoCommandError exampleCheck parsedSnapshot (exampleFile ''go.mod'')
      exampleError = Inr ?d"
    by (simp add: locate_defs exampleToken)
  have category: "e_Category errUnused \<noteq> []"
    by (simp add: errUnused_def)
  have source: "pd_Source ((presented errUnused)\<lparr>pd_Source := []\<rparr>) = sd_Source ?d"
    by simp
  from ExtractGoCommandError_Source [OF h] source category
  have "\<not> sameDiagnostic ((presented errUnused)\<lparr>pd_Source := []\<rparr>) errUnused"
    by blast
  with h category show ?thesis
    by simp
qed

text \<open>
  Claim C4 on the error text invalidPathError. Its only candidate, foo at
  v1.0.0, is not valid, so the text holds no valid token. The loop has written
  the candidate into \<open>v\<close> before checking it and nothing resets \<open>v\<close>, so the
  search runs with foo at v1.0.0. The manifest requires foo at v1.0.0, and the
  call returns a diagnostic at that statement where the claim expects the error
  "no diagnostics for".
\<close>

theorem ExtractGoCommandError_invalid_candidate:
  "find (\<lambda>(path, version). exampleCheck path version) (candidates invalidPathError) = None \<and>
   extractVersion exampleCheck invalidPathError = \<lparr>Path = ''foo'', Version = ''v1.0.0''\<rparr> \<and>
   ExtractGoCommandError exampleCheck parsedSnapshot (exampleFile ''go.mod'') invalidPathError =
     Inr \<lparr>sd_Message = invalidPathError,
          sd_Range = \<lparr>Start = \<lparr>Line = 2, Character = 0\<rparr>, End = \<lparr>Line = 2, Character = 18\<rparr>\<rparr>,
          sd_Severity = SeverityError, sd_Source = []\<rparr>"
proof -
  have "candidates invalidPathError = [(''foo'', ''v1.0.0'')]"
    unfolding invalidPathError_def by code_simp
  then have "find (\<lambda>(path, version). exampleCheck path version) (candidates invalidPathError)
      = None"
    by (simp add: exampleCheck_def)
  moreover have "ExtractGoCommandError exampleCheck parsedSnapshot (exampleFile ''go.mod'')
      invalidPathError =
     Inr \<lparr>sd_Message = invalidPathError,
          sd_Range = \<lparr>Start = \<lparr>Line = 2, Character = 0\<rparr>, End = \<lparr>Line = 2, Character = 18\<rparr>\<rparr>,
          sd_Severity = SeverityError, sd_Source = []\<rparr>"
    by (simp add: locate_defs invalidToken)
  ultimately show ?thesis
    using invalidToken by (intro conjI)
qed

end
